theory Spec2Isabelle
  imports Complex_Main "HOL-Library.Log_Nat"
begin

section \<open>Values on both sides of the bridge\<close>

text \<open>
  The package \<^verbatim>\<open>jsrunner\<close> wraps the goja engine. The engine and the event loop of
  \<^verbatim>\<open>goja_nodejs\<close> are external collaborators: what the wrapper needs of them is
  modelled here as data (values, the global object) and, where their behaviour on a
  source text cannot be written down, taken as a parameter (the record \<open>engine\<close> below).

  A Go \<^verbatim>\<open>float64\<close> is modelled at the level of the value it denotes: a finite number is
  the rational it stands for, and the four special values are constructors.
\<close>

datatype float64 = Fin rat | NegZero | PosInf | NegInf | NaN

text \<open>A script value. JavaScript has one number type; a function is opaque.\<close>

datatype jsval =
    JUndefined
  | JNull
  | JBool bool
  | JNumber float64
  | JString string
  | JArray "jsval list"
  | JObject "(string \<times> jsval) list"
  | JFunction nat

text \<open>A host value, as held in an \<^verbatim>\<open>interface{}\<close>.\<close>

datatype goval =
    GoNil
  | GoString string
  | GoInt int
  | GoBool bool
  | GoFloat float64
  | GoSlice "goval list"
  | GoMap "(string \<times> goval) list"
  | GoFunc nat


section \<open>The engine as a collaborator\<close>

text \<open>
  An error of the engine: a source text that does not compile (with the diagnostic), or a
  script value thrown while running.
\<close>

datatype engine_error = SyntaxError string | Exception jsval

text \<open>
  What the expression handed to \<^verbatim>\<open>AwaitPromise\<close> evaluates to: it throws, or it is a
  value without a callable \<^verbatim>\<open>then\<close>, or it is promise-like. A promise-like value
  settles after a number of turns of the loop, or never.
\<close>

datatype settlement = Fulfilled jsval | Rejected jsval

datatype evaluated =
    Threw engine_error
  | NotThenable jsval
  | Thenable "(nat \<times> settlement) option"

text \<open>The state of a runtime, as far as the wrapper can see it: the global object.\<close>

type_synonym vm = "string \<rightharpoonup> jsval"

text \<open>
  The behaviour of goja that is not written down here is a parameter. \<open>compile\<close> and
  \<open>run_program\<close> are the two halves of \<^verbatim>\<open>RunString\<close>; running a program gives its
  completion value or error, the new global object, and the timers the script has
  scheduled (delay in milliseconds and callback). \<open>evaluate_awaited\<close> is the value of
  the expression that \<^verbatim>\<open>AwaitPromise\<close> interpolates into its wrapper function. The
  remaining fields are conversions of the language: string to number, object to
  number, number and object to string.
\<close>

record 'p engine =
  compile :: "string \<Rightarrow> string + 'p"
  run_program :: "'p \<Rightarrow> vm \<Rightarrow> (engine_error + jsval) \<times> vm \<times> (nat \<times> 'p) list"
  evaluate_awaited :: "string \<Rightarrow> vm \<Rightarrow> evaluated \<times> vm"
  string_to_number :: "string \<Rightarrow> float64"
  object_to_number :: "jsval \<Rightarrow> float64"
  to_string :: "jsval \<Rightarrow> string"

text \<open>
  \<^verbatim>\<open>RunString\<close>: compile, and only then run. A source text that does not compile is
  reported before anything has been executed.
\<close>

definition RunString ::
  "'p engine \<Rightarrow> string \<Rightarrow> vm \<Rightarrow> (engine_error + jsval) \<times> vm \<times> (nat \<times> 'p) list" where
  "RunString eng src g =
     (case compile eng src of
        Inl diagnostic \<Rightarrow> (Inl (SyntaxError diagnostic), g, [])
      | Inr prog \<Rightarrow> run_program eng prog g)"

subsection \<open>From host values to script values\<close>

text \<open>
  The conversion of a Go integer to a \<^verbatim>\<open>float64\<close>: exact up to \<open>2^53\<close>, beyond that
  rounded to 53 significant bits, ties to even.
\<close>

definition float64_of_int :: "int \<Rightarrow> float64" where
  "float64_of_int i =
     (let a = \<bar>i\<bar> in
      if a \<le> 2 ^ 53 then Fin (of_int i)
      else
        let e = nat (bitlen a) - 53;
            q = a div 2 ^ e;
            r = a mod 2 ^ e;
            h = 2 ^ (e - 1);
            q' = (if h < r \<or> (r = h \<and> odd q) then q + 1 else q)
        in Fin (of_int (sgn i * q' * 2 ^ e)))"

text \<open>\<^verbatim>\<open>vm.ToValue\<close>, used by \<^verbatim>\<open>vm.Set\<close>.\<close>

fun ToValue :: "goval \<Rightarrow> jsval" where
  "ToValue GoNil = JNull"
| "ToValue (GoString s) = JString s"
| "ToValue (GoInt i) = JNumber (float64_of_int i)"
| "ToValue (GoBool b) = JBool b"
| "ToValue (GoFloat f) = JNumber f"
| "ToValue (GoSlice xs) = JArray (map ToValue xs)"
| "ToValue (GoMap kvs) = JObject (map (\<lambda>(k, v). (k, ToValue v)) kvs)"
| "ToValue (GoFunc n) = JFunction n"

definition vm_Set :: "string \<Rightarrow> goval \<Rightarrow> vm \<Rightarrow> vm" where
  "vm_Set name v g = g(name \<mapsto> ToValue v)"

subsection \<open>From script values to host values\<close>

definition trunc_zero :: "rat \<Rightarrow> int" where
  "trunc_zero q = (if 0 \<le> q then \<lfloor>q\<rfloor> else \<lceil>q\<rceil>)"

text \<open>
  Go's \<^verbatim>\<open>int64(f)\<close> on a finite float. Outside the range of \<^verbatim>\<open>int64\<close> the language
  leaves the result to the implementation; amd64 gives the smallest \<^verbatim>\<open>int64\<close>.
\<close>

definition int64_of_rat :: "rat \<Rightarrow> int" where
  "int64_of_rat q =
     (let t = trunc_zero q in if - (2 ^ 63) \<le> t \<and> t < 2 ^ 63 then t else - (2 ^ 63))"

fun ToNumber :: "'p engine \<Rightarrow> jsval \<Rightarrow> float64" where
  "ToNumber eng JUndefined = NaN"
| "ToNumber eng JNull = Fin 0"
| "ToNumber eng (JBool b) = (if b then Fin 1 else Fin 0)"
| "ToNumber eng (JNumber f) = f"
| "ToNumber eng (JString s) = string_to_number eng s"
| "ToNumber eng v = object_to_number eng v"

definition ToInteger :: "'p engine \<Rightarrow> jsval \<Rightarrow> int" where
  "ToInteger eng v =
     (case ToNumber eng v of
        Fin q \<Rightarrow> int64_of_rat q
      | NegZero \<Rightarrow> 0
      | NaN \<Rightarrow> 0
      | PosInf \<Rightarrow> 2 ^ 63 - 1
      | NegInf \<Rightarrow> - (2 ^ 63))"

definition ToFloat :: "'p engine \<Rightarrow> jsval \<Rightarrow> float64" where
  "ToFloat eng v = ToNumber eng v"

fun ToBoolean :: "jsval \<Rightarrow> bool" where
  "ToBoolean JUndefined = False"
| "ToBoolean JNull = False"
| "ToBoolean (JBool b) = b"
| "ToBoolean (JNumber f) = (f \<noteq> Fin 0 \<and> f \<noteq> NegZero \<and> f \<noteq> NaN)"
| "ToBoolean (JString s) = (s \<noteq> [])"
| "ToBoolean v = True"

fun String :: "'p engine \<Rightarrow> jsval \<Rightarrow> string" where
  "String eng JUndefined = ''undefined''"
| "String eng JNull = ''null''"
| "String eng (JBool b) = (if b then ''true'' else ''false'')"
| "String eng (JString s) = s"
| "String eng v = to_string eng v"

text \<open>
  \<^verbatim>\<open>Value.Export\<close>: a number that is an integer of at most 53 bits comes back as an
  \<^verbatim>\<open>int64\<close>, any other number as a \<^verbatim>\<open>float64\<close>; \<^verbatim>\<open>null\<close> and \<^verbatim>\<open>undefined\<close> come back
  as \<^verbatim>\<open>nil\<close>.
\<close>

definition export_number :: "float64 \<Rightarrow> goval" where
  "export_number f =
     (case f of
        Fin q \<Rightarrow>
          (if of_int \<lfloor>q\<rfloor> = q \<and> \<bar>q\<bar> \<le> 2 ^ 53 then GoInt \<lfloor>q\<rfloor> else GoFloat f)
      | _ \<Rightarrow> GoFloat f)"

fun Value_Export :: "jsval \<Rightarrow> goval" where
  "Value_Export JUndefined = GoNil"
| "Value_Export JNull = GoNil"
| "Value_Export (JBool b) = GoBool b"
| "Value_Export (JNumber f) = export_number f"
| "Value_Export (JString s) = GoString s"
| "Value_Export (JArray xs) = GoSlice (map Value_Export xs)"
| "Value_Export (JObject kvs) = GoMap (map (\<lambda>(k, v). (k, Value_Export v)) kvs)"
| "Value_Export (JFunction n) = GoFunc n"

section \<open>The export helpers\<close>

text \<open>
  A \<^verbatim>\<open>goja.Value\<close> is an interface: the \<^verbatim>\<open>nil\<close> interface is \<open>None\<close>. Each helper
  tests for \<^verbatim>\<open>nil\<close> first and calls the method of the value otherwise.
\<close>

definition ExportString :: "'p engine \<Rightarrow> jsval option \<Rightarrow> string" where
  "ExportString eng val = (case val of None \<Rightarrow> [] | Some v \<Rightarrow> String eng v)"

definition ExportInt :: "'p engine \<Rightarrow> jsval option \<Rightarrow> int" where
  "ExportInt eng val = (case val of None \<Rightarrow> 0 | Some v \<Rightarrow> ToInteger eng v)"

definition ExportFloat :: "'p engine \<Rightarrow> jsval option \<Rightarrow> float64" where
  "ExportFloat eng val = (case val of None \<Rightarrow> Fin 0 | Some v \<Rightarrow> ToFloat eng v)"

definition ExportBool :: "jsval option \<Rightarrow> bool" where
  "ExportBool val = (case val of None \<Rightarrow> False | Some v \<Rightarrow> ToBoolean v)"

definition Export :: "jsval option \<Rightarrow> goval" where
  "Export val = (case val of None \<Rightarrow> GoNil | Some v \<Rightarrow> Value_Export v)"


section \<open>The host platform\<close>

text \<open>
  What the wrapper uses of Go's standard library and is not written down here:
  \<^verbatim>\<open>os.ReadFile\<close> (the content of a file, or the error of the operating system),
  \<^verbatim>\<open>fmt\<close>'s \<^verbatim>\<open>%v\<close> on floats, composite values and functions, and, for \<^verbatim>\<open>%q\<close>, the
  escaping of a character outside ASCII, which depends on the UTF-8 decoder and the
  Unicode tables (the escaped text of the first character of the input and its width
  in bytes).
\<close>

record platform =
  ReadFile :: "string \<Rightarrow> string + string"
  format_other :: "goval \<Rightarrow> string"
  quote_non_ascii :: "string \<Rightarrow> string \<times> nat"

subsection \<open>Formatting\<close>

definition digit_char :: "nat \<Rightarrow> char" where
  "digit_char d = char_of (48 + d)"

fun decimal_nat :: "nat \<Rightarrow> string" where
  "decimal_nat n =
     (if n < 10 then [digit_char n] else decimal_nat (n div 10) @ [digit_char (n mod 10)])"

definition decimal :: "int \<Rightarrow> string" where
  "decimal i = (if i < 0 then CHR ''-'' # decimal_nat (nat (- i)) else decimal_nat (nat i))"

text \<open>\<^verbatim>\<open>fmt.Sprintf("%v", v)\<close>.\<close>

fun Sprint_v :: "platform \<Rightarrow> goval \<Rightarrow> string" where
  "Sprint_v lib GoNil = ''<nil>''"
| "Sprint_v lib (GoString s) = s"
| "Sprint_v lib (GoInt i) = decimal i"
| "Sprint_v lib (GoBool b) = (if b then ''true'' else ''false'')"
| "Sprint_v lib v = format_other lib v"

definition lowerhex :: "nat \<Rightarrow> char" where
  "lowerhex d = (if d < 10 then char_of (48 + d) else char_of (87 + d))"

text \<open>
  \<^verbatim>\<open>fmt.Sprintf("%q", s)\<close> is \<^verbatim>\<open>strconv.Quote\<close>: the string between double quotes, in
  the syntax of a Go string literal. The quote and the backslash are backslashed, a
  printable ASCII character stands for itself, seven control characters have a
  letter (\<^verbatim>\<open>\a \b \f \n \r \t \v\<close>), the other control characters and DEL are
  written \<^verbatim>\<open>\x\<close> with two hexadecimal digits.
\<close>

definition quote_ascii :: "char \<Rightarrow> string" where
  "quote_ascii c =
     (let n = (of_char c :: nat) in
      if n = 34 \<or> n = 92 then [CHR 0x5C, c]
      else if 32 \<le> n \<and> n \<le> 126 then [c]
      else if n = 7 then [CHR 0x5C, CHR ''a'']
      else if n = 8 then [CHR 0x5C, CHR ''b'']
      else if n = 12 then [CHR 0x5C, CHR ''f'']
      else if n = 10 then [CHR 0x5C, CHR ''n'']
      else if n = 13 then [CHR 0x5C, CHR ''r'']
      else if n = 9 then [CHR 0x5C, CHR ''t'']
      else if n = 11 then [CHR 0x5C, CHR ''v'']
      else [CHR 0x5C, CHR ''x'', lowerhex (n div 16), lowerhex (n mod 16)])"

fun quote_body :: "platform \<Rightarrow> string \<Rightarrow> string" where
  "quote_body lib [] = []"
| "quote_body lib (c # cs) =
     (if (of_char c :: nat) < 128 then quote_ascii c @ quote_body lib cs
      else
        (case quote_non_ascii lib (c # cs) of
           (text, width) \<Rightarrow> text @ quote_body lib (drop (width - 1) cs)))"

definition Sprint_q :: "platform \<Rightarrow> string \<Rightarrow> string" where
  "Sprint_q lib s = CHR 0x22 # quote_body lib s @ [CHR 0x22]"

section \<open>The synchronous runner\<close>

text \<open>The errors the package returns, one constructor for each message it builds.\<close>

datatype error =
    ReadFileError string
  | ExecuteScriptError engine_error
  | CallFunctionError string engine_error
  | EvaluateError engine_error
  | EngineError engine_error
  | TimedOut nat
  | PromiseRejected string

record Runner =
  vm :: vm
  globals :: "string \<rightharpoonup> goval"

text \<open>\<^verbatim>\<open>New\<close> without options: a fresh runtime and an empty registry.\<close>

definition New :: Runner where
  "New = \<lparr>vm = Map.empty, globals = Map.empty\<rparr>"

definition SetGlobal :: "string \<Rightarrow> goval \<Rightarrow> Runner \<Rightarrow> Runner" where
  "SetGlobal name v r =
     r\<lparr>globals := (globals r)(name \<mapsto> v), vm := vm_Set name v (vm r)\<rparr>"

definition LoadScriptString ::
  "'p engine \<Rightarrow> string \<Rightarrow> Runner \<Rightarrow> error option \<times> Runner" where
  "LoadScriptString eng code r =
     (case RunString eng code (vm r) of
        (Inl err, g, _) \<Rightarrow> (Some (ExecuteScriptError err), r\<lparr>vm := g\<rparr>)
      | (Inr _, g, _) \<Rightarrow> (None, r\<lparr>vm := g\<rparr>))"

definition LoadScript ::
  "platform \<Rightarrow> 'p engine \<Rightarrow> string \<Rightarrow> Runner \<Rightarrow> error option \<times> Runner" where
  "LoadScript lib eng filepath r =
     (case ReadFile lib filepath of
        Inl err \<Rightarrow> (Some (ReadFileError err), r)
      | Inr code \<Rightarrow>
          (case RunString eng code (vm r) of
             (Inl err, g, _) \<Rightarrow> (Some (ExecuteScriptError err), r\<lparr>vm := g\<rparr>)
           | (Inr _, g, _) \<Rightarrow> (None, r\<lparr>vm := g\<rparr>)))"

text \<open>The argument list of \<^verbatim>\<open>Call\<close>: each argument formatted, joined by a comma and a space.\<close>

definition format_arg :: "platform \<Rightarrow> goval \<Rightarrow> string" where
  "format_arg lib arg =
     (case arg of GoString v \<Rightarrow> Sprint_q lib v | _ \<Rightarrow> Sprint_v lib arg)"

fun jsArgs :: "platform \<Rightarrow> goval list \<Rightarrow> string" where
  "jsArgs lib [] = []"
| "jsArgs lib [arg] = format_arg lib arg"
| "jsArgs lib (arg # args) = format_arg lib arg @ '', '' @ jsArgs lib args"

definition call_script :: "platform \<Rightarrow> string \<Rightarrow> goval list \<Rightarrow> string" where
  "call_script lib functionName args = functionName @ ''('' @ jsArgs lib args @ '')''"

definition Call ::
  "platform \<Rightarrow> 'p engine \<Rightarrow> string \<Rightarrow> goval list \<Rightarrow> Runner \<Rightarrow> (error + jsval) \<times> Runner" where
  "Call lib eng functionName args r =
     (case RunString eng (call_script lib functionName args) (vm r) of
        (Inl err, g, _) \<Rightarrow> (Inl (CallFunctionError functionName err), r\<lparr>vm := g\<rparr>)
      | (Inr result, g, _) \<Rightarrow> (Inr result, r\<lparr>vm := g\<rparr>))"

definition Eval :: "'p engine \<Rightarrow> string \<Rightarrow> Runner \<Rightarrow> (error + jsval) \<times> Runner" where
  "Eval eng expression r =
     (case RunString eng expression (vm r) of
        (Inl err, g, _) \<Rightarrow> (Inl (EvaluateError err), r\<lparr>vm := g\<rparr>)
      | (Inr result, g, _) \<Rightarrow> (Inr result, r\<lparr>vm := g\<rparr>))"


section \<open>String literals of the script language\<close>

text \<open>
  How the engine reads a string literal (ECMAScript, section "String Literals", with
  the legacy octal escapes that non-strict code accepts), on ASCII source text. The
  value is a list of UTF-16 code units; the rest of the source follows the closing quote.
  An escape is a backslash and: a letter among \<^verbatim>\<open>b f n r t v\<close> for a control character,
  \<^verbatim>\<open>x\<close> and two hexadecimal digits, \<^verbatim>\<open>u\<close> and four hexadecimal digits or a code
  point in braces, octal digits, a line terminator (the line continues), or any
  other character, which then stands for itself.
\<close>

definition hex_digit :: "char \<Rightarrow> nat option" where
  "hex_digit c =
     (let n = (of_char c :: nat) in
      if 48 \<le> n \<and> n \<le> 57 then Some (n - 48)
      else if 97 \<le> n \<and> n \<le> 102 then Some (n - 87)
      else if 65 \<le> n \<and> n \<le> 70 then Some (n - 55)
      else None)"

fun hex_value :: "nat \<Rightarrow> string \<Rightarrow> nat option" where
  "hex_value acc [] = Some acc"
| "hex_value acc (c # cs) =
     (case hex_digit c of None \<Rightarrow> None | Some d \<Rightarrow> hex_value (16 * acc + d) cs)"

definition octal_digit :: "char \<Rightarrow> nat option" where
  "octal_digit c =
     (let n = (of_char c :: nat) in if 48 \<le> n \<and> n \<le> 55 then Some (n - 48) else None)"

definition code_units :: "nat \<Rightarrow> nat list" where
  "code_units cp =
     (if cp < 65536 then [cp]
      else [55296 + (cp - 65536) div 1024, 56320 + (cp - 65536) mod 1024])"

text \<open>
  The escape after a backslash: the code units it stands for and the number of
  characters it takes.
\<close>

definition js_escape :: "string \<Rightarrow> (nat list \<times> nat) option" where
  "js_escape src =
     (case src of
        [] \<Rightarrow> None
      | c # rest \<Rightarrow>
          if c = CHR ''b'' then Some ([8], 1)
          else if c = CHR ''f'' then Some ([12], 1)
          else if c = CHR ''n'' then Some ([10], 1)
          else if c = CHR ''r'' then Some ([13], 1)
          else if c = CHR ''t'' then Some ([9], 1)
          else if c = CHR ''v'' then Some ([11], 1)
          else if c = CHR ''x'' then
            (if length rest < 2 then None
             else map_option (\<lambda>v. ([v], 3)) (hex_value 0 (take 2 rest)))
          else if c = CHR ''u'' then
            (if rest \<noteq> [] \<and> hd rest = CHR 0x7B then
               (let ds = takeWhile (\<lambda>d. d \<noteq> CHR 0x7D) (tl rest) in
                if ds = [] \<or> length ds = length (tl rest) then None
                else
                  (case hex_value 0 ds of
                     None \<Rightarrow> None
                   | Some cp \<Rightarrow>
                       if cp > 1114111 then None else Some (code_units cp, length ds + 3)))
             else if length rest < 4 then None
             else map_option (\<lambda>v. ([v], 5)) (hex_value 0 (take 4 rest)))
          else if c = CHR 0x0A then Some ([], 1)
          else if c = CHR 0x0D then
            (if rest \<noteq> [] \<and> hd rest = CHR 0x0A then Some ([], 2) else Some ([], 1))
          else
            (case octal_digit c of
               None \<Rightarrow> Some ([of_char c], 1)
             | Some d1 \<Rightarrow>
                 (case (case rest of [] \<Rightarrow> None | c2 # _ \<Rightarrow> octal_digit c2) of
                    None \<Rightarrow> Some ([d1], 1)
                  | Some d2 \<Rightarrow>
                      (case (case drop 1 rest of [] \<Rightarrow> None | c3 # _ \<Rightarrow> octal_digit c3) of
                         None \<Rightarrow> Some ([8 * d1 + d2], 2)
                       | Some d3 \<Rightarrow>
                           if d1 \<le> 3 then Some ([64 * d1 + 8 * d2 + d3], 3)
                           else Some ([8 * d1 + d2], 2)))))"

fun js_string_body :: "char \<Rightarrow> string \<Rightarrow> (nat list \<times> string) option" where
  "js_string_body quote [] = None"
| "js_string_body quote (c # rest) =
     (if c = quote then Some ([], rest)
      else if c = CHR 0x0A \<or> c = CHR 0x0D then None
      else if c = CHR 0x5C then
        (case js_escape rest of
           None \<Rightarrow> None
         | Some (units, n) \<Rightarrow>
             (case js_string_body quote (drop n rest) of
                None \<Rightarrow> None
              | Some (v, r) \<Rightarrow> Some (units @ v, r)))
      else
        (case js_string_body quote rest of
           None \<Rightarrow> None
         | Some (v, r) \<Rightarrow> Some (of_char c # v, r)))"

definition js_string_literal :: "string \<Rightarrow> (nat list \<times> string) option" where
  "js_string_literal src =
     (case src of
        [] \<Rightarrow> None
      | q # rest \<Rightarrow> if q = CHR 0x22 \<or> q = CHR 0x27 then js_string_body q rest else None)"

text \<open>The script string that has the characters of an ASCII host string.\<close>

definition js_string_of :: "string \<Rightarrow> nat list" where
  "js_string_of s = map of_char s"

section \<open>A small engine for the examples\<close>

text \<open>
  An instance of the engine that knows a few source texts, each with the behaviour
  the language gives it: an identifier evaluates to the global of that name, or throws
  when there is none; the two broken texts of the test suite do not compile; awaited,
  \<^verbatim>\<open>42\<close> is a plain number, \<^verbatim>\<open>Promise.reject(...)\<close> is a promise already rejected
  with the argument, and a promise whose executor does nothing never settles.
\<close>

definition example_compile :: "string \<Rightarrow> string + string" where
  "example_compile src =
     (if src = ''var x = ;'' \<or> src = ''2 +'' then Inl ''SyntaxError: Unexpected token''
      else Inr src)"

definition example_run ::
  "string \<Rightarrow> vm \<Rightarrow> (engine_error + jsval) \<times> vm \<times> (nat \<times> string) list" where
  "example_run prog g =
     (case g prog of
        Some v \<Rightarrow> (Inr v, g, [])
      | None \<Rightarrow> (Inl (Exception (JString (''ReferenceError: '' @ prog @ '' is not defined''))), g, []))"

text \<open>The source text \<^verbatim>\<open>Promise.reject("boom")\<close>.\<close>

definition reject_boom :: string where
  "reject_boom = ''Promise.reject('' @ [CHR 0x22] @ ''boom'' @ [CHR 0x22] @ '')''"

definition example_awaited :: "string \<Rightarrow> vm \<Rightarrow> evaluated \<times> vm" where
  "example_awaited code g =
     (if code = ''42'' then (NotThenable (JNumber (Fin 42)), g)
      else if code = ''Promise.reject()'' then (Thenable (Some (0, Rejected JUndefined)), g)
      else if code = ''Promise.reject(null)'' then (Thenable (Some (0, Rejected JNull)), g)
      else if code = reject_boom then (Thenable (Some (0, Rejected (JString ''boom''))), g)
      else if code = ''new Promise(function() {})'' then (Thenable None, g)
      else (Threw (Exception (JString ''ReferenceError'')), g))"

definition example_engine :: "string engine" where
  "example_engine =
     \<lparr>compile = example_compile,
      run_program = example_run,
      evaluate_awaited = example_awaited,
      string_to_number = (\<lambda>s. NaN),
      object_to_number = (\<lambda>v. NaN),
      to_string = (\<lambda>v. ''[object Object]'')\<rparr>"

definition example_platform :: platform where
  "example_platform =
     \<lparr>ReadFile = (\<lambda>path. if path = ''broken.js'' then Inr ''var x = ;''
                          else Inl (''open '' @ path @ '': no such file or directory'')),
      format_other = (\<lambda>v. ''?''),
      quote_non_ascii = (\<lambda>s. (''?'', 1))\<rparr>"

text \<open>
  The engine evaluates the source text \<open>name\<close> as a reference to the global of that
  name: what an identifier is to the language.
\<close>

definition resolves_global :: "'p engine \<Rightarrow> string \<Rightarrow> bool" where
  "resolves_global eng name \<longleftrightarrow>
     (\<forall>g v. g name = Some v \<longrightarrow> RunString eng name g = (Inr v, g, []))"


section \<open>The event loop\<close>

text \<open>
  Modelled from the spec: the event loop of \<^verbatim>\<open>goja_nodejs\<close> is not part of the
  repository. Its state follows sections 3 and 4.3 of the specification: a phase, a
  monotonic clock (in milliseconds), the queue of closures handed over by
  \<^verbatim>\<open>RunOnLoop\<close> in submission order, and the pending timers in submission order.
  The loop owns the runtime; \<open>host\<close> is the memory of the host program that the
  closures given to the loop capture.
\<close>

datatype phase = Created | Running | Stopped | Aborted

record 'h world =
  js :: vm
  host :: 'h

text \<open>
  The closures that reach the loop, by their origin: a closure of the wrapper around a
  function of the caller (\<^verbatim>\<open>func(vm) { r.setupVM(vm); fn(vm) }\<close>), the first closure
  of \<^verbatim>\<open>AwaitPromise\<close> for a source text, and a callback that a script has scheduled.
\<close>

datatype ('p, 'h) job =
    Wrapped "'h world \<Rightarrow> 'h world"
  | Await string
  | Callback 'p

record ('p, 'h) timer =
  tid :: nat
  due :: nat
  period :: "nat option"
  task :: "('p, 'h) job"

record ('p, 'h) EventLoop =
  phase :: phase
  now :: nat
  world :: "'h world"
  auxJobs :: "('p, 'h) job list"
  timers :: "('p, 'h) timer list"
  next_tid :: nat

text \<open>
  The runner: the loop, the registry of globals and the switch of the fetch helpers.
  (The lock is the sequential order of this model; the HTTP client and its timeout are
  read by the fetch helpers only.)
\<close>

record ('p, 'h) EventLoopRunner =
  loop :: "('p, 'h) EventLoop"
  globals :: "string \<rightharpoonup> goval"
  webAccessEnabled :: bool

text \<open>What a blocking call does: it returns, it never returns, or it panics.\<close>

datatype 'a call = Done 'a | Blocked | Panic

definition NewEventLoopRunner :: "bool \<Rightarrow> 'h \<Rightarrow> ('p, 'h) EventLoopRunner" where
  "NewEventLoopRunner web h =
     \<lparr>loop = \<lparr>phase = Created, now = 0, world = \<lparr>js = Map.empty, host = h\<rparr>,
               auxJobs = [], timers = [], next_tid = 0\<rparr>,
      globals = Map.empty,
      webAccessEnabled = web\<rparr>"

definition NewEventLoopRunnerWithGlobals ::
  "(string \<rightharpoonup> goval) \<Rightarrow> bool \<Rightarrow> 'h \<Rightarrow> ('p, 'h) EventLoopRunner" where
  "NewEventLoopRunnerWithGlobals gs web h =
     (let r = NewEventLoopRunner web h in r\<lparr>globals := globals r ++ gs\<rparr>)"

definition EventLoopRunner_SetGlobal ::
  "string \<Rightarrow> goval \<Rightarrow> ('p, 'h) EventLoopRunner \<Rightarrow> ('p, 'h) EventLoopRunner" where
  "EventLoopRunner_SetGlobal name v r = r\<lparr>globals := (globals r)(name \<mapsto> v)\<rparr>"

subsection \<open>Binding the registry\<close>

definition fetchText_helper :: goval where
  "fetchText_helper = GoFunc 0"

definition fetchJSON_helper :: goval where
  "fetchJSON_helper = GoFunc 1"

definition installFetchGlobals :: "vm \<Rightarrow> vm" where
  "installFetchGlobals g =
     vm_Set ''fetchJSON'' fetchJSON_helper (vm_Set ''fetchText'' fetchText_helper g)"

text \<open>
  \<^verbatim>\<open>setupVM\<close> sets every entry of the registry (the keys of a Go map are distinct, so
  the order of the iteration does not matter: the registry overrides the global
  object), and then, when web access is enabled, the two fetch helpers.
\<close>

definition setupVM :: "('p, 'h) EventLoopRunner \<Rightarrow> vm \<Rightarrow> vm" where
  "setupVM r g =
     (let g' = g ++ (\<lambda>name. map_option ToValue (globals r name))
      in if webAccessEnabled r then installFetchGlobals g' else g')"

definition the_js :: "('p, 'h) EventLoopRunner \<Rightarrow> vm" where
  "the_js r = js (world (loop r))"

definition set_js :: "vm \<Rightarrow> ('p, 'h) EventLoopRunner \<Rightarrow> ('p, 'h) EventLoopRunner" where
  "set_js g r = r\<lparr>loop := (loop r)\<lparr>world := (world (loop r))\<lparr>js := g\<rparr>\<rparr>\<rparr>"

subsection \<open>Timers and jobs of the loop\<close>

text \<open>
  Modelled from the spec: a timer is scheduled at the clock of the loop plus its
  delay and gets the next handle.
\<close>

definition schedule ::
  "nat \<Rightarrow> nat option \<Rightarrow> ('p, 'h) job \<Rightarrow> ('p, 'h) EventLoop \<Rightarrow> nat \<times> ('p, 'h) EventLoop" where
  "schedule delay per j l =
     (next_tid l,
      l\<lparr>timers := timers l @ [\<lparr>tid = next_tid l, due = now l + delay, period = per, task = j\<rparr>],
        next_tid := Suc (next_tid l)\<rparr>)"

text \<open>Modelled from the spec: the timeouts a script has set, scheduled in their order.\<close>

fun schedule_all :: "(nat \<times> 'p) list \<Rightarrow> ('p, 'h) EventLoop \<Rightarrow> ('p, 'h) EventLoop" where
  "schedule_all [] l = l"
| "schedule_all ((delay, p) # xs) l = schedule_all xs (snd (schedule delay None (Callback p) l))"

text \<open>
  One closure on the worker of the loop. The closure of the wrapper binds the registry
  and calls the function of the caller; the first closure of \<^verbatim>\<open>AwaitPromise\<close> binds
  the registry and evaluates the source text; a callback of a script runs as it is.
\<close>

definition run_job ::
  "'p engine \<Rightarrow> ('p, 'h) job \<Rightarrow> ('p, 'h) EventLoopRunner \<Rightarrow> ('p, 'h) EventLoopRunner" where
  "run_job eng j r =
     (case j of
        Wrapped fn \<Rightarrow>
          r\<lparr>loop := (loop r)\<lparr>world := fn ((world (loop r))\<lparr>js := setupVM r (the_js r)\<rparr>)\<rparr>\<rparr>
      | Await code \<Rightarrow>
          (case evaluate_awaited eng code (setupVM r (the_js r)) of (ev, g) \<Rightarrow> set_js g r)
      | Callback p \<Rightarrow>
          (case run_program eng p (the_js r) of
             (res, g, new) \<Rightarrow> (let r' = set_js g r in r'\<lparr>loop := schedule_all new (loop r')\<rparr>)))"

text \<open>Modelled from the spec: queued closures run in submission order.\<close>

fun run_jobs ::
  "'p engine \<Rightarrow> ('p, 'h) job list \<Rightarrow> ('p, 'h) EventLoopRunner \<Rightarrow> ('p, 'h) EventLoopRunner" where
  "run_jobs eng [] r = r"
| "run_jobs eng (j # rest) r = run_jobs eng rest (run_job eng j r)"

text \<open>
  Modelled from the spec: a timer that fires leaves the pending timers, an interval is
  set again one period later; then its closure runs.
\<close>

definition fire ::
  "'p engine \<Rightarrow> ('p, 'h) timer \<Rightarrow> ('p, 'h) EventLoopRunner \<Rightarrow> ('p, 'h) EventLoopRunner" where
  "fire eng t r =
     (let l = loop r;
          ts = (case period t of
                  None \<Rightarrow> filter (\<lambda>u. tid u \<noteq> tid t) (timers l)
                | Some p \<Rightarrow> map (\<lambda>u. if tid u = tid t then u\<lparr>due := due u + p\<rparr> else u) (timers l))
      in run_job eng (task t) (r\<lparr>loop := l\<lparr>timers := ts\<rparr>\<rparr>))"

text \<open>Modelled from the spec: the timers that are due fire one after the other.\<close>

fun fire_all ::
  "'p engine \<Rightarrow> ('p, 'h) timer list \<Rightarrow> ('p, 'h) EventLoopRunner \<Rightarrow> ('p, 'h) EventLoopRunner" where
  "fire_all eng [] r = r"
| "fire_all eng (t # ts) r = fire_all eng ts (fire eng t r)"

text \<open>
  Modelled from the spec: one millisecond passes. A running loop fires the timers that
  are due, ordered by fire time, ties by submission order (\<open>sort_key\<close> is stable and
  the pending timers are kept in submission order). A loop that is not running fires
  nothing.
\<close>

definition tick :: "'p engine \<Rightarrow> ('p, 'h) EventLoopRunner \<Rightarrow> ('p, 'h) EventLoopRunner" where
  "tick eng r =
     (let l = (loop r)\<lparr>now := Suc (now (loop r))\<rparr> in
      if phase l = Running
      then fire_all eng (sort_key due (filter (\<lambda>t. due t \<le> now l) (timers l))) (r\<lparr>loop := l\<rparr>)
      else r\<lparr>loop := l\<rparr>)"

text \<open>Modelled from the spec: \<open>n\<close> milliseconds pass.\<close>

primrec advance ::
  "'p engine \<Rightarrow> nat \<Rightarrow> ('p, 'h) EventLoopRunner \<Rightarrow> ('p, 'h) EventLoopRunner" where
  "advance eng 0 r = r"
| "advance eng (Suc n) r = advance eng n (tick eng r)"


subsection \<open>The operations of the loop\<close>

text \<open>
  Modelled from the spec: \<^verbatim>\<open>Start\<close> takes a created loop to running; the closures
  queued before run first, in submission order.
\<close>

definition eventloop_Start ::
  "'p engine \<Rightarrow> ('p, 'h) EventLoopRunner \<Rightarrow> ('p, 'h) EventLoopRunner" where
  "eventloop_Start eng r =
     (if phase (loop r) = Created
      then run_jobs eng (auxJobs (loop r)) (r\<lparr>loop := (loop r)\<lparr>phase := Running, auxJobs := []\<rparr>\<rparr>)
      else r)"

text \<open>
  Modelled from the spec: \<^verbatim>\<open>Stop\<close> ends a running loop once what is queued and due has
  run (a running loop of this model has run it already).
\<close>

definition eventloop_Stop :: "('p, 'h) EventLoopRunner \<Rightarrow> ('p, 'h) EventLoopRunner" where
  "eventloop_Stop r =
     (if phase (loop r) = Running then r\<lparr>loop := (loop r)\<lparr>phase := Stopped\<rparr>\<rparr> else r)"

text \<open>
  Modelled from the spec: \<^verbatim>\<open>StopNoWait\<close> aborts a running loop at once; pending
  timers, intervals and queued closures are discarded.
\<close>

definition eventloop_StopNoWait :: "('p, 'h) EventLoopRunner \<Rightarrow> ('p, 'h) EventLoopRunner" where
  "eventloop_StopNoWait r =
     (if phase (loop r) = Running
      then r\<lparr>loop := (loop r)\<lparr>phase := Aborted, auxJobs := [], timers := []\<rparr>\<rparr>
      else r)"

text \<open>
  Modelled from the spec: \<^verbatim>\<open>RunOnLoop\<close> hands a closure to the loop. A running loop
  runs it on its worker; a created loop queues it until \<^verbatim>\<open>Start\<close>; a loop that has
  stopped accepts no work.
\<close>

definition eventloop_RunOnLoop ::
  "'p engine \<Rightarrow> ('p, 'h) job \<Rightarrow> ('p, 'h) EventLoopRunner \<Rightarrow> ('p, 'h) EventLoopRunner" where
  "eventloop_RunOnLoop eng j r =
     (case phase (loop r) of
        Running \<Rightarrow> run_job eng j r
      | Created \<Rightarrow> r\<lparr>loop := (loop r)\<lparr>auxJobs := auxJobs (loop r) @ [j]\<rparr>\<rparr>
      | _ \<Rightarrow> r)"

text \<open>Modelled from the spec: \<^verbatim>\<open>SetTimeout\<close> schedules a closure once and returns its handle.\<close>

definition eventloop_SetTimeout ::
  "('p, 'h) job \<Rightarrow> nat \<Rightarrow> ('p, 'h) EventLoopRunner \<Rightarrow> nat \<times> ('p, 'h) EventLoopRunner" where
  "eventloop_SetTimeout j delay r =
     (case schedule delay None j (loop r) of (h, l) \<Rightarrow> (h, r\<lparr>loop := l\<rparr>))"

text \<open>
  Modelled from the spec: \<^verbatim>\<open>SetInterval\<close> schedules a closure every period, starting
  one period from now.
\<close>

definition eventloop_SetInterval ::
  "('p, 'h) job \<Rightarrow> nat \<Rightarrow> ('p, 'h) EventLoopRunner \<Rightarrow> nat \<times> ('p, 'h) EventLoopRunner" where
  "eventloop_SetInterval j interval r =
     (case schedule interval (Some interval) j (loop r) of
        (h, l) \<Rightarrow> (h, r\<lparr>loop := l\<rparr>))"

text \<open>
  Modelled from the spec: cancelling a handle removes the pending timer or interval;
  a handle that has fired or was cancelled before is no longer pending, and nothing
  happens.
\<close>

definition eventloop_Clear :: "nat \<Rightarrow> ('p, 'h) EventLoopRunner \<Rightarrow> ('p, 'h) EventLoopRunner" where
  "eventloop_Clear h r =
     r\<lparr>loop := (loop r)\<lparr>timers := filter (\<lambda>t. tid t \<noteq> h) (timers (loop r))\<rparr>\<rparr>"

text \<open>
  Modelled from the spec: the pump of \<^verbatim>\<open>Run\<close> drives the loop until it has no more
  pending callbacks. It need not end: an interval, or callbacks that schedule
  callbacks without end, keep it going, and then the result is \<open>None\<close>.
\<close>

partial_function (option) pump ::
  "'p engine \<Rightarrow> ('p, 'h) EventLoopRunner \<Rightarrow> ('p, 'h) EventLoopRunner option" where
  "pump eng r = (if timers (loop r) = [] then Some r else pump eng (tick eng r))"

text \<open>
  Modelled from the spec: the same pump watched for \<open>budget\<close> milliseconds: the time at
  which the loop had nothing pending, if that happened within the budget, and the
  state then (or the state when the budget ran out).
\<close>

fun pump_within ::
  "'p engine \<Rightarrow> nat \<Rightarrow> ('p, 'h) EventLoopRunner \<Rightarrow> nat option \<times> ('p, 'h) EventLoopRunner" where
  "pump_within eng 0 r = (if timers (loop r) = [] then Some 0 else None, r)"
| "pump_within eng (Suc budget) r =
     (if timers (loop r) = [] then (Some 0, r)
      else (case pump_within eng budget (tick eng r) of (d, r') \<Rightarrow> (map_option Suc d, r')))"

text \<open>
  Modelled from the spec: \<^verbatim>\<open>Run\<close> may be used without \<^verbatim>\<open>Start\<close>; the loop processes
  while it pumps (closures queued before run first) and is at rest again when the
  pump has ended.
\<close>

definition begin_run ::
  "'p engine \<Rightarrow> ('p, 'h) EventLoopRunner \<Rightarrow> ('p, 'h) EventLoopRunner" where
  "begin_run eng r =
     run_jobs eng (auxJobs (loop r)) (r\<lparr>loop := (loop r)\<lparr>phase := Running, auxJobs := []\<rparr>\<rparr>)"

text \<open>Modelled from the spec: after the pump the loop is at rest, as when it was created.\<close>

definition end_run :: "('p, 'h) EventLoopRunner \<Rightarrow> ('p, 'h) EventLoopRunner" where
  "end_run r = r\<lparr>loop := (loop r)\<lparr>phase := Created\<rparr>\<rparr>"

text \<open>
  Modelled from the spec: \<^verbatim>\<open>Run\<close> calls the closure, then pumps. It returns when the pump
  ends, and never when it does not. The specification gives no meaning to \<^verbatim>\<open>Run\<close> on a
  loop that is running, and the test suite warns against \<^verbatim>\<open>Start\<close> before a call that
  uses \<^verbatim>\<open>Run\<close>; the model has the call panic there, as the loop of goja_nodejs does.
\<close>

definition eventloop_Run ::
  "'p engine \<Rightarrow> ('p, 'h) job \<Rightarrow> ('p, 'h) EventLoopRunner \<Rightarrow> ('p, 'h) EventLoopRunner call" where
  "eventloop_Run eng j r =
     (if phase (loop r) = Running then Panic
      else (case pump eng (begin_run eng (run_job eng j r)) of
              None \<Rightarrow> Blocked
            | Some r' \<Rightarrow> Done (end_run r')))"

section \<open>The event-loop runner\<close>

definition Start :: "'p engine \<Rightarrow> ('p, 'h) EventLoopRunner \<Rightarrow> ('p, 'h) EventLoopRunner" where
  "Start eng r = eventloop_Start eng r"

definition Stop :: "('p, 'h) EventLoopRunner \<Rightarrow> ('p, 'h) EventLoopRunner" where
  "Stop r = eventloop_Stop r"

definition StopNoWait :: "('p, 'h) EventLoopRunner \<Rightarrow> ('p, 'h) EventLoopRunner" where
  "StopNoWait r = eventloop_StopNoWait r"

definition Run ::
  "'p engine \<Rightarrow> ('h world \<Rightarrow> 'h world) \<Rightarrow> ('p, 'h) EventLoopRunner
     \<Rightarrow> ('p, 'h) EventLoopRunner call" where
  "Run eng fn r = eventloop_Run eng (Wrapped fn) r"

definition RunOnLoop ::
  "'p engine \<Rightarrow> ('h world \<Rightarrow> 'h world) \<Rightarrow> ('p, 'h) EventLoopRunner \<Rightarrow> ('p, 'h) EventLoopRunner" where
  "RunOnLoop eng fn r = eventloop_RunOnLoop eng (Wrapped fn) r"

definition SetTimeout ::
  "('h world \<Rightarrow> 'h world) \<Rightarrow> nat \<Rightarrow> ('p, 'h) EventLoopRunner \<Rightarrow> nat \<times> ('p, 'h) EventLoopRunner" where
  "SetTimeout fn delay r = eventloop_SetTimeout (Wrapped fn) delay r"

definition SetInterval ::
  "('h world \<Rightarrow> 'h world) \<Rightarrow> nat \<Rightarrow> ('p, 'h) EventLoopRunner \<Rightarrow> nat \<times> ('p, 'h) EventLoopRunner" where
  "SetInterval fn interval r = eventloop_SetInterval (Wrapped fn) interval r"

definition ClearInterval :: "nat \<Rightarrow> ('p, 'h) EventLoopRunner \<Rightarrow> ('p, 'h) EventLoopRunner" where
  "ClearInterval i r = eventloop_Clear i r"

definition ClearTimeout :: "nat \<Rightarrow> ('p, 'h) EventLoopRunner \<Rightarrow> ('p, 'h) EventLoopRunner" where
  "ClearTimeout t r = eventloop_Clear t r"

text \<open>
  The closure of \<^verbatim>\<open>RunAsync\<close> and \<^verbatim>\<open>RunAsyncWithTimeout\<close>: bind the registry, run the
  source text, keep the result and the error; the timers the script has scheduled are
  pending on the loop.
\<close>

definition run_script ::
  "'p engine \<Rightarrow> string \<Rightarrow> ('p, 'h) EventLoopRunner
     \<Rightarrow> (engine_error + jsval) \<times> ('p, 'h) EventLoopRunner" where
  "run_script eng code r =
     (case RunString eng code (setupVM r (the_js r)) of
        (res, g, new) \<Rightarrow> (res, (set_js g r)\<lparr>loop := schedule_all new (loop (set_js g r))\<rparr>))"

text \<open>The pair \<^verbatim>\<open>(result, runErr)\<close> as \<^verbatim>\<open>RunString\<close> leaves it.\<close>

definition result_pair :: "engine_error + jsval \<Rightarrow> jsval option \<times> error option" where
  "result_pair res =
     (case res of Inl err \<Rightarrow> (None, Some (EngineError err)) | Inr v \<Rightarrow> (Some v, None))"

definition RunAsync ::
  "'p engine \<Rightarrow> string \<Rightarrow> ('p, 'h) EventLoopRunner
     \<Rightarrow> ((jsval option \<times> error option) \<times> ('p, 'h) EventLoopRunner) call" where
  "RunAsync eng code r =
     (if phase (loop r) = Running then Panic
      else
        (case run_script eng code r of
           (res, r1) \<Rightarrow>
             (case pump eng (begin_run eng r1) of
                None \<Rightarrow> Blocked
              | Some r2 \<Rightarrow> Done (result_pair res, end_run r2))))"

text \<open>
  \<^verbatim>\<open>RunAsyncWithTimeout\<close> starts the same run on a goroutine and selects between its
  end and the timer. The select takes the channel that is ready first; when the run
  ends in the very millisecond of the timeout either may be taken, so the call has a
  set of possible outcomes. On the timeout the loop is stopped without waiting.
\<close>

definition RunAsyncWithTimeout ::
  "'p engine \<Rightarrow> string \<Rightarrow> nat \<Rightarrow> ('p, 'h) EventLoopRunner
     \<Rightarrow> ((jsval option \<times> error option) \<times> ('p, 'h) EventLoopRunner) call set" where
  "RunAsyncWithTimeout eng code timeout r =
     (if phase (loop r) = Running then {Panic}
      else
        (case run_script eng code r of
           (res, r1) \<Rightarrow>
             (case pump_within eng timeout (begin_run eng r1) of
                (d, r2) \<Rightarrow>
                  (if d = None then {} else {Done (result_pair res, end_run r2)})
                  \<union> (if d = None \<or> d = Some timeout
                     then {Done ((None, Some (TimedOut timeout)), StopNoWait r2)}
                     else {}))))"

subsection \<open>Awaiting a promise\<close>

text \<open>
  The object \<^verbatim>\<open>__result\<close> of the wrapper function that \<^verbatim>\<open>AwaitPromise\<close> builds around
  the source text, and what the function does with the value of the source text: a
  value with a callable \<^verbatim>\<open>then\<close> gets the two handlers, any other value is stored at
  once.
\<close>

record await_result =
  result_value :: jsval
  result_error :: jsval
  result_done :: bool

definition initial_result :: await_result where
  "initial_result = \<lparr>result_value = JUndefined, result_error = JUndefined, result_done = False\<rparr>"

definition on_fulfilled :: "jsval \<Rightarrow> await_result \<Rightarrow> await_result" where
  "on_fulfilled v res = res\<lparr>result_value := v, result_done := True\<rparr>"

definition on_rejected :: "jsval \<Rightarrow> await_result \<Rightarrow> await_result" where
  "on_rejected e res = res\<lparr>result_error := e, result_done := True\<rparr>"

text \<open>The object after \<open>k\<close> turns of the loop.\<close>

fun result_after :: "evaluated \<Rightarrow> nat \<Rightarrow> await_result" where
  "result_after (NotThenable v) k = initial_result\<lparr>result_value := v, result_done := True\<rparr>"
| "result_after (Thenable None) k = initial_result"
| "result_after (Thenable (Some (n, Fulfilled v))) k =
     (if n \<le> k then on_fulfilled v initial_result else initial_result)"
| "result_after (Thenable (Some (n, Rejected e))) k =
     (if n \<le> k then on_rejected e initial_result else initial_result)"
| "result_after (Threw err) k = initial_result"

text \<open>
  \<^verbatim>\<open>checkResult\<close>, once \<^verbatim>\<open>done\<close> is set: an error that is neither \<^verbatim>\<open>undefined\<close> nor
  \<^verbatim>\<open>null\<close> becomes the error of the call, otherwise the value is exported.
\<close>

definition settled :: "platform \<Rightarrow> await_result \<Rightarrow> goval \<times> error option" where
  "settled lib obj =
     (if result_error obj \<noteq> JUndefined \<and> result_error obj \<noteq> JNull
      then (GoNil,
            Some (PromiseRejected (''promise rejected: '' @ Sprint_v lib (Value_Export (result_error obj)))))
      else (Value_Export (result_value obj), None))"

text \<open>
  \<^verbatim>\<open>checkResult\<close> looks at \<^verbatim>\<open>done\<close> and, while it is not set, hands itself to the loop
  again for the next turn (in which a millisecond may pass). It need not end.
\<close>

partial_function (option) checkResult ::
  "platform \<Rightarrow> 'p engine \<Rightarrow> evaluated \<Rightarrow> nat \<Rightarrow> ('p, 'h) EventLoopRunner
     \<Rightarrow> ((goval \<times> error option) \<times> ('p, 'h) EventLoopRunner) option" where
  "checkResult lib eng ev k r =
     (if ToBoolean (JBool (result_done (result_after ev k)))
      then Some (settled lib (result_after ev k), r)
      else checkResult lib eng ev (Suc k) (tick eng r))"

text \<open>
  \<^verbatim>\<open>AwaitPromise\<close> hands its first closure to the loop and waits for the completion
  signal. On a running loop the closure runs: a source text that throws ends the call
  with the error of the engine, any other starts the checks. On a loop that is not
  running nothing signals: the call does not return, and the state given is the one
  in which the closure was handed over. The same state is given when the checks
  never end.
\<close>

definition AwaitPromise ::
  "platform \<Rightarrow> 'p engine \<Rightarrow> string \<Rightarrow> ('p, 'h) EventLoopRunner
     \<Rightarrow> (goval \<times> error option) call \<times> ('p, 'h) EventLoopRunner" where
  "AwaitPromise lib eng code r =
     (if phase (loop r) = Running then
        (case evaluate_awaited eng code (setupVM r (the_js r)) of
           (ev, g) \<Rightarrow>
             (case ev of
                Threw err \<Rightarrow> (Done (GoNil, Some (EngineError err)), set_js g r)
              | _ \<Rightarrow>
                  (case checkResult lib eng ev 0 (set_js g r) of
                     None \<Rightarrow> (Blocked, set_js g r)
                   | Some (res, r') \<Rightarrow> (Done res, r'))))
      else (Blocked, eventloop_RunOnLoop eng (Await code) r))"

section \<open>A host program that schedules callbacks\<close>

text \<open>
  The scenario of \<^verbatim>\<open>TestEventLoopRunner_MultipleTimeouts\<close>, for any schedule: the host
  submits one timeout for each pair of a delay and a tag, in the order of the list and
  at one instant; the callback of a pair appends its tag to a list in host memory.
\<close>

fun submit ::
  "(nat \<times> 'a) list \<Rightarrow> ('p, 'a list) EventLoopRunner \<Rightarrow> ('p, 'a list) EventLoopRunner" where
  "submit [] r = r"
| "submit ((delay, x) # rest) r =
     submit rest (snd (SetTimeout (\<lambda>w. w\<lparr>host := host w @ [x]\<rparr>) delay r))"

text \<open>
  For the proofs about \<open>submit\<close>: the timer that a pair becomes when it is submitted at
  clock \<open>c\<close> under handle \<open>k\<close>, and the handles that consecutive submissions get.
\<close>

definition appender_timer :: "nat \<Rightarrow> nat \<times> nat \<times> 'a \<Rightarrow> ('p, 'a list) timer" where
  "appender_timer c z =
     \<lparr>tid = fst z, due = c + fst (snd z), period = None,
      task = Wrapped (\<lambda>w. w\<lparr>host := host w @ [snd (snd z)]\<rparr>)\<rparr>"

fun stamp :: "nat \<Rightarrow> (nat \<times> 'a) list \<Rightarrow> (nat \<times> nat \<times> 'a) list" where
  "stamp k [] = []"
| "stamp k (p # rest) = (k, p) # stamp (Suc k) rest"

section \<open>Properties of the export helpers and of the synchronous runner\<close>

lemma float64_of_int_exact: "\<bar>i\<bar> \<le> 2 ^ 53 \<Longrightarrow> float64_of_int i = Fin (of_int i)"
  by (simp add: float64_of_int_def)

lemma trunc_zero_of_int: "trunc_zero (of_int i) = i"
  by (simp add: trunc_zero_def)

lemma ToInteger_ToValue_int:
  assumes "\<bar>i\<bar> \<le> 2 ^ 53"
  shows "ToInteger eng (ToValue (GoInt i)) = i"
proof -
  from assms have "- (2 ^ 63) \<le> i \<and> i < 2 ^ 63" by (simp add: abs_le_iff)
  with assms show ?thesis
    by (simp add: ToInteger_def float64_of_int_exact int64_of_rat_def trunc_zero_of_int)
qed

lemma Eval_after_SetGlobal:
  "resolves_global eng name \<Longrightarrow>
     Eval eng name (SetGlobal name v r) = (Inr (ToValue v), SetGlobal name v r)"
  by (simp add: resolves_global_def Eval_def SetGlobal_def vm_Set_def)

lemma example_engine_resolves:
  "name \<noteq> ''var x = ;'' \<Longrightarrow> name \<noteq> ''2 +'' \<Longrightarrow> resolves_global example_engine name"
  by (simp add: resolves_global_def RunString_def example_engine_def example_compile_def
      example_run_def)

lemma float64_of_int_beyond: "float64_of_int 9007199254740993 = Fin 9007199254740992"
  by code_simp

text \<open>
  Claim C7. The export helpers are defined on the \<^verbatim>\<open>nil\<close> value and do not fail there:
  \<^verbatim>\<open>ExportString(nil)\<close> is the empty string, \<^verbatim>\<open>ExportInt(nil)\<close> and
  \<^verbatim>\<open>ExportFloat(nil)\<close> are zero, \<^verbatim>\<open>ExportBool(nil)\<close> is false and \<^verbatim>\<open>Export(nil)\<close> is
  \<^verbatim>\<open>nil\<close>.
\<close>

theorem C7_export_helpers_nil:
  "ExportString eng None = [] \<and> ExportInt eng None = 0 \<and> ExportFloat eng None = Fin 0
   \<and> ExportBool None = False \<and> Export None = GoNil"
  by (simp add: ExportString_def ExportInt_def ExportFloat_def ExportBool_def Export_def)

text \<open>
  Claim C5. A source text that does not compile makes \<^verbatim>\<open>LoadScriptString\<close>, \<^verbatim>\<open>Eval\<close>
  and \<^verbatim>\<open>LoadScript\<close> (on a file with that content) return the wrapped syntax error of
  the engine, and leaves the runner as it was: the runtime and the registry are unchanged.
\<close>

theorem C5_malformed_source_leaves_state:
  assumes "compile eng code = Inl diagnostic"
  shows "LoadScriptString eng code r = (Some (ExecuteScriptError (SyntaxError diagnostic)), r)
       \<and> Eval eng code r = (Inl (EvaluateError (SyntaxError diagnostic)), r)
       \<and> (ReadFile lib path = Inr code \<longrightarrow>
            LoadScript lib eng path r = (Some (ExecuteScriptError (SyntaxError diagnostic)), r))"
  using assms by (simp add: LoadScriptString_def Eval_def LoadScript_def RunString_def)

theorem C5_malformed_source_leaves_state_witness:
  "compile example_engine ''var x = ;'' = Inl ''SyntaxError: Unexpected token''
   \<and> ReadFile example_platform ''broken.js'' = Inr ''var x = ;''
   \<and> LoadScriptString example_engine ''var x = ;'' (SetGlobal ''x'' (GoInt 1) New)
       = (Some (ExecuteScriptError (SyntaxError ''SyntaxError: Unexpected token'')),
          SetGlobal ''x'' (GoInt 1) New)
   \<and> Eval example_engine ''var x = ;'' (SetGlobal ''x'' (GoInt 1) New)
       = (Inl (EvaluateError (SyntaxError ''SyntaxError: Unexpected token'')),
          SetGlobal ''x'' (GoInt 1) New)
   \<and> LoadScript example_platform example_engine ''broken.js'' (SetGlobal ''x'' (GoInt 1) New)
       = (Some (ExecuteScriptError (SyntaxError ''SyntaxError: Unexpected token'')),
          SetGlobal ''x'' (GoInt 1) New)"
proof -
  have c: "compile example_engine ''var x = ;'' = Inl ''SyntaxError: Unexpected token''"
    by (simp add: example_engine_def example_compile_def)
  have f: "ReadFile example_platform ''broken.js'' = Inr ''var x = ;''"
    by (simp add: example_platform_def)
  show ?thesis
    using C5_malformed_source_leaves_state
      [OF c, of "SetGlobal ''x'' (GoInt 1) New" example_platform "''broken.js''"] c f
    by simp
qed

text \<open>
  Claim C8, as amended. For every runner and every name that the engine evaluates as a
  reference to the global of that name, \<^verbatim>\<open>SetGlobal(name, v)\<close> followed by
  \<^verbatim>\<open>Eval(name)\<close> succeeds with a value that exports to \<open>v\<close>, when \<open>v\<close> is a string, a
  bool, a float, or an integer of absolute value at most \<open>2^53\<close>; and setting a name
  again leaves the runner as if only the second value had been set.
\<close>

theorem C8_set_global_round_trip:
  assumes "resolves_global eng name"
  shows "(\<exists>v. fst (Eval eng name (SetGlobal name (GoString s) r)) = Inr v
            \<and> ExportString eng (Some v) = s)
       \<and> (\<bar>i\<bar> \<le> 2 ^ 53 \<longrightarrow>
            (\<exists>v. fst (Eval eng name (SetGlobal name (GoInt i) r)) = Inr v
                \<and> ExportInt eng (Some v) = i))
       \<and> (\<exists>v. fst (Eval eng name (SetGlobal name (GoBool b) r)) = Inr v
            \<and> ExportBool (Some v) = b)
       \<and> (\<exists>v. fst (Eval eng name (SetGlobal name (GoFloat f) r)) = Inr v
            \<and> ExportFloat eng (Some v) = f)
       \<and> SetGlobal name v2 (SetGlobal name v1 r) = SetGlobal name v2 r"
proof -
  have ov: "SetGlobal name v2 (SetGlobal name v1 r) = SetGlobal name v2 r"
    by (simp add: SetGlobal_def vm_Set_def)
  show ?thesis
    using assms ov
    by (simp add: Eval_after_SetGlobal ExportString_def ExportInt_def ExportBool_def
        ExportFloat_def ToFloat_def ToInteger_ToValue_int [simplified])
qed

theorem C8_set_global_round_trip_witness:
  "resolves_global example_engine ''x''
   \<and> \<bar>42 :: int\<bar> \<le> 2 ^ 53
   \<and> fst (Eval example_engine ''x'' (SetGlobal ''x'' (GoInt 42) New)) = Inr (JNumber (Fin 42))
   \<and> ExportInt example_engine (Some (JNumber (Fin 42))) = 42
   \<and> (\<exists>v. fst (Eval example_engine ''x'' (SetGlobal ''x'' (GoInt 42) New)) = Inr v
         \<and> ExportInt example_engine (Some v) = 42)"
proof -
  have h: "resolves_global example_engine ''x''"
    by (rule example_engine_resolves) simp_all
  show ?thesis
    using h C8_set_global_round_trip [OF h, where r = New and i = 42]
    by (simp add: Eval_after_SetGlobal float64_of_int_exact ExportInt_def
        ToInteger_def int64_of_rat_def trunc_zero_def)
qed

text \<open>
  The claim as stated fails for an integer beyond \<open>2^53\<close>: the number of the script
  language that \<^verbatim>\<open>SetGlobal("n", 9007199254740993)\<close> binds is 9007199254740992, and
  that is what \<^verbatim>\<open>ExportInt\<close> gives back.
\<close>

theorem C8_large_int_counterexample:
  "fst (Eval example_engine ''n'' (SetGlobal ''n'' (GoInt 9007199254740993) New))
     = Inr (JNumber (Fin 9007199254740992))
   \<and> ExportInt example_engine (Some (JNumber (Fin 9007199254740992))) = 9007199254740992
   \<and> (9007199254740992 :: int) \<noteq> 9007199254740993"
  by (simp add: Eval_after_SetGlobal example_engine_resolves float64_of_int_beyond
      ExportInt_def ToInteger_def int64_of_rat_def trunc_zero_def)

text \<open>
  What the script language reads back from a quoted ASCII string: the literal ends at
  the closing quote that \<^verbatim>\<open>%q\<close> wrote, so the content stays inside the literal, and
  its value has the characters of the string, except that BEL comes back as the
  letter \<^verbatim>\<open>a\<close>.
\<close>

lemma hex_digit_lowerhex: "d < 16 \<Longrightarrow> hex_digit (lowerhex d) = Some d"
  by (auto simp: hex_digit_def lowerhex_def Let_def)

lemma hex_value_two:
  "n < 256 \<Longrightarrow> hex_value 0 [lowerhex (n div 16), lowerhex (n mod 16)] = Some n"
  by (simp add: hex_digit_lowerhex)

lemma char_by_code: "(of_char c :: nat) = n \<Longrightarrow> n = of_char d \<Longrightarrow> c = d"
  by simp

lemma js_string_body_plain:
  assumes "c \<noteq> CHR 0x22" and "c \<noteq> CHR 0x0A" and "c \<noteq> CHR 0x0D" and "c \<noteq> CHR 0x5C"
  shows "js_string_body (CHR 0x22) (c # t)
           = map_option (apfst ((@) [of_char c])) (js_string_body (CHR 0x22) t)"
  using assms by (cases "js_string_body (CHR 0x22) t") auto

lemma js_string_body_escaped:
  assumes "js_escape (e @ t) = Some (units, length e)"
  shows "js_string_body (CHR 0x22) (CHR 0x5C # e @ t)
           = map_option (apfst ((@) units)) (js_string_body (CHR 0x22) t)"
  using assms by (cases "js_string_body (CHR 0x22) t") auto

lemma js_string_body_quote_ascii:
  assumes "(of_char c :: nat) < 128"
  shows "js_string_body (CHR 0x22) (quote_ascii c @ t)
           = map_option (apfst ((@) [if c = CHR 0x07 then 97 else of_char c]))
               (js_string_body (CHR 0x22) t)"
proof -
  let ?n = "of_char c :: nat"
  have "?n = 34 \<or> ?n = 92 \<or> ?n = 7 \<or> ?n = 8 \<or> ?n = 9 \<or> ?n = 10 \<or> ?n = 11
      \<or> ?n = 12 \<or> ?n = 13
      \<or> (32 \<le> ?n \<and> ?n \<le> 126 \<and> ?n \<noteq> 34 \<and> ?n \<noteq> 92)
      \<or> ((?n < 32 \<or> ?n = 127) \<and> ?n \<notin> {7, 8, 9, 10, 11, 12, 13})"
    using assms by auto
  then consider "?n = 34" | "?n = 92" | "?n = 7" | "?n = 8" | "?n = 9" | "?n = 10" | "?n = 11"
    | "?n = 12" | "?n = 13"
    | "32 \<le> ?n \<and> ?n \<le> 126 \<and> ?n \<noteq> 34 \<and> ?n \<noteq> 92"
    | "(?n < 32 \<or> ?n = 127) \<and> ?n \<notin> {7, 8, 9, 10, 11, 12, 13}"
    by blast
  then show ?thesis
  proof cases
    case 1
    then have "c = CHR 0x22" by (rule char_by_code) simp
    then show ?thesis
      using js_string_body_escaped [of "[CHR 0x22]" t "[34]"]
      by (simp add: quote_ascii_def js_escape_def octal_digit_def)
  next
    case 2
    then have "c = CHR 0x5C" by (rule char_by_code) simp
    then show ?thesis
      using js_string_body_escaped [of "[CHR 0x5C]" t "[92]"]
      by (simp add: quote_ascii_def js_escape_def octal_digit_def)
  next
    case 3
    then have "c = CHR 0x07" by (rule char_by_code) simp
    then show ?thesis
      using js_string_body_escaped [of "[CHR ''a'']" t "[97]"]
      by (simp add: quote_ascii_def js_escape_def octal_digit_def)
  next
    case 4
    then have "c = CHR 0x08" by (rule char_by_code) simp
    then show ?thesis
      using js_string_body_escaped [of "[CHR ''b'']" t "[8]"]
      by (simp add: quote_ascii_def js_escape_def)
  next
    case 5
    then have "c = CHR 0x09" by (rule char_by_code) simp
    then show ?thesis
      using js_string_body_escaped [of "[CHR ''t'']" t "[9]"]
      by (simp add: quote_ascii_def js_escape_def)
  next
    case 6
    then have "c = CHR 0x0A" by (rule char_by_code) simp
    then show ?thesis
      using js_string_body_escaped [of "[CHR ''n'']" t "[10]"]
      by (simp add: quote_ascii_def js_escape_def)
  next
    case 7
    then have "c = CHR 0x0B" by (rule char_by_code) simp
    then show ?thesis
      using js_string_body_escaped [of "[CHR ''v'']" t "[11]"]
      by (simp add: quote_ascii_def js_escape_def)
  next
    case 8
    then have "c = CHR 0x0C" by (rule char_by_code) simp
    then show ?thesis
      using js_string_body_escaped [of "[CHR ''f'']" t "[12]"]
      by (simp add: quote_ascii_def js_escape_def)
  next
    case 9
    then have "c = CHR 0x0D" by (rule char_by_code) simp
    then show ?thesis
      using js_string_body_escaped [of "[CHR ''r'']" t "[13]"]
      by (simp add: quote_ascii_def js_escape_def)
  next
    case 10
    then have q: "quote_ascii c = [c]"
      by (simp add: quote_ascii_def Let_def)
    from 10 have "c \<noteq> CHR 0x22" "c \<noteq> CHR 0x0A" "c \<noteq> CHR 0x0D" "c \<noteq> CHR 0x5C" "c \<noteq> CHR 0x07"
      by auto
    then show ?thesis
      using js_string_body_plain [of c t] by (simp add: q)
  next
    case 11
    then have q: "quote_ascii c = CHR 0x5C # [CHR ''x'', lowerhex (?n div 16), lowerhex (?n mod 16)]"
      by (auto simp: quote_ascii_def Let_def)
    from 11 have "?n < 256" by auto
    then have h: "hex_value 0 [lowerhex (?n div 16), lowerhex (?n mod 16)] = Some ?n"
      by (rule hex_value_two)
    have e: "js_escape ([CHR ''x'', lowerhex (?n div 16), lowerhex (?n mod 16)] @ t) = Some ([?n], 3)"
      using h by (simp add: js_escape_def)
    from 11 have "c \<noteq> CHR 0x07" by auto
    then show ?thesis
      using js_string_body_escaped [of "[CHR ''x'', lowerhex (?n div 16), lowerhex (?n mod 16)]" t "[?n]"] e
      by (simp only: q append_Cons append_Nil) simp
  qed
qed


lemma quote_body_read_back:
  assumes "\<forall>c\<in>set s. (of_char c :: nat) < 128"
  shows "js_string_body (CHR 0x22) (quote_body lib s @ CHR 0x22 # rest)
           = Some (map (\<lambda>c. if c = CHR 0x07 then 97 else of_char c) s, rest)"
  using assms
proof (induction s)
  case Nil
  show ?case by simp
next
  case (Cons c s)
  then have c: "(of_char c :: nat) < 128" and s: "\<forall>c\<in>set s. (of_char c :: nat) < 128"
    by simp_all
  have "quote_body lib (c # s) @ CHR 0x22 # rest
          = quote_ascii c @ (quote_body lib s @ CHR 0x22 # rest)"
    using c by simp
  then show ?case
    using js_string_body_quote_ascii [OF c, of "quote_body lib s @ CHR 0x22 # rest"] Cons.IH [OF s]
    by (simp del: quote_body.simps)
qed

lemma Sprint_q_read_back:
  assumes "\<forall>c\<in>set s. (of_char c :: nat) < 128"
  shows "js_string_literal (Sprint_q lib s @ rest)
           = Some (map (\<lambda>c. if c = CHR 0x07 then 97 else of_char c) s, rest)"
  using quote_body_read_back [OF assms, of lib rest]
  by (simp add: js_string_literal_def Sprint_q_def)

lemma Sprint_q_exact_without_bell:
  assumes "\<forall>c\<in>set s. (of_char c :: nat) < 128" and "CHR 0x07 \<notin> set s"
  shows "js_string_literal (Sprint_q lib s @ rest) = Some (js_string_of s, rest)"
proof -
  have "map (\<lambda>c. if c = CHR 0x07 then 97 else of_char c) s = js_string_of s"
    using assms(2) by (auto simp: js_string_of_def)
  then show ?thesis
    using Sprint_q_read_back [OF assms(1), of lib rest] by simp
qed

text \<open>
  Claim C2. \<^verbatim>\<open>Call\<close> quotes a string argument in the syntax of a Go string literal. For
  the string that holds the single character BEL (U+0007) the expression built is
  \<^verbatim>\<open>f("\a")\<close>, and the script language reads the literal \<^verbatim>\<open>"\a"\<close> as the string
  \<^verbatim>\<open>"a"\<close>: the function does not receive the string that was passed.
\<close>

theorem C2_bell_argument_changed:
  "call_script lib ''f'' [GoString [CHR 0x07]]
     = ''f('' @ [CHR 0x22, CHR 0x5C, CHR ''a'', CHR 0x22] @ '')''
   \<and> js_string_literal ([CHR 0x22, CHR 0x5C, CHR ''a'', CHR 0x22] @ '')'')
       = Some (js_string_of ''a'', '')'')
   \<and> js_string_of ''a'' \<noteq> js_string_of [CHR 0x07]"
  by (simp add: call_script_def format_arg_def Sprint_q_def quote_ascii_def
      js_string_literal_def js_escape_def octal_digit_def js_string_of_def)

section \<open>Properties of the event-loop runner\<close>

subsection \<open>Awaiting\<close>



lemma checkResult_settles:
  "k \<le> n \<Longrightarrow>
   checkResult lib eng (Thenable (Some (n, s))) k r
     = Some (settled lib (result_after (Thenable (Some (n, s))) n), advance eng (n - k) r)"
proof (induction "n - k" arbitrary: k r)
  case 0
  then have "k = n" by simp
  then show ?case
    by (subst checkResult.simps) (cases s; simp add: on_fulfilled_def on_rejected_def)
next
  case (Suc d)
  then have lt: "k < n" and d: "d = n - Suc k" and le: "Suc k \<le> n" by simp_all
  have nd: "\<not> result_done (result_after (Thenable (Some (n, s))) k)"
    using lt by (cases s; simp add: initial_result_def)
  have step: "checkResult lib eng (Thenable (Some (n, s))) k r
          = checkResult lib eng (Thenable (Some (n, s))) (Suc k) (tick eng r)"
    using nd by (subst checkResult.simps) simp
  from lt have nk: "n - k = Suc (n - Suc k)" by simp
  show ?case
    by (simp only: step Suc.hyps(1) [OF d le] nk advance.simps)
qed

lemma checkResult_never:
  "checkResult lib eng (Thenable None) k r = None"
proof (rule ccontr)
  assume "checkResult lib eng (Thenable None) k r \<noteq> None"
  then obtain y where y: "checkResult lib eng (Thenable None) k r = Some y" by auto
  have "Thenable None \<noteq> (Thenable None :: evaluated)"
    by (rule checkResult.raw_induct
          [where P = "\<lambda>lib eng ev k r y. ev \<noteq> Thenable None", OF _ y])
       (auto simp: initial_result_def split: if_splits)
  then show False by simp
qed

lemma pump_idle: "timers (loop r) = [] \<Longrightarrow> pump eng r = Some r"
  by (subst pump.simps) simp


lemma setupVM_registry:
  assumes "globals r name = Some v"
  shows "setupVM r g name =
           Some (if webAccessEnabled r \<and> name = ''fetchText'' then ToValue fetchText_helper
                 else if webAccessEnabled r \<and> name = ''fetchJSON'' then ToValue fetchJSON_helper
                 else ToValue v)"
  using assms by (simp add: setupVM_def installFetchGlobals_def vm_Set_def map_add_def Let_def)

lemma AwaitPromise_not_running:
  assumes "phase (loop r) \<noteq> Running"
  shows "AwaitPromise lib eng code r = (Blocked, eventloop_RunOnLoop eng (Await code) r)"
  using assms by (simp add: AwaitPromise_def)

lemma started:
  "Start eng (NewEventLoopRunner web h) =
     \<lparr>loop = \<lparr>phase = Running, now = 0, world = \<lparr>js = Map.empty, host = h\<rparr>,
               auxJobs = [], timers = [], next_tid = 0\<rparr>,
      globals = Map.empty,
      webAccessEnabled = web\<rparr>"
  by (simp add: Start_def eventloop_Start_def NewEventLoopRunner_def)

text \<open>
  Claim C3, as amended. On a runner whose loop is not running (before \<^verbatim>\<open>Start\<close>, or
  after \<^verbatim>\<open>Stop\<close> or \<^verbatim>\<open>StopNoWait\<close>), \<^verbatim>\<open>AwaitPromise\<close> returns no error: it does not
  return. The source text is not executed (the runtime, the timers and the phase are as
  before), and on a loop that was never started the closure waits in the queue.
\<close>

theorem C3_await_when_not_running_blocks:
  assumes "phase (loop r) \<noteq> Running"
  shows "fst (AwaitPromise lib eng code r) = Blocked
       \<and> world (loop (snd (AwaitPromise lib eng code r))) = world (loop r)
       \<and> timers (loop (snd (AwaitPromise lib eng code r))) = timers (loop r)
       \<and> phase (loop (snd (AwaitPromise lib eng code r))) = phase (loop r)
       \<and> (phase (loop r) = Created \<longrightarrow>
            auxJobs (loop (snd (AwaitPromise lib eng code r))) = auxJobs (loop r) @ [Await code])"
  using assms
  by (cases "phase (loop r)") (simp_all add: AwaitPromise_def eventloop_RunOnLoop_def)

theorem C3_await_when_not_running_blocks_witness:
  "phase (loop (NewEventLoopRunner False () :: (string, unit) EventLoopRunner)) \<noteq> Running
   \<and> phase (loop (NewEventLoopRunner False () :: (string, unit) EventLoopRunner)) = Created
   \<and> fst (AwaitPromise example_platform example_engine ''42'' (NewEventLoopRunner False ())) = Blocked
   \<and> auxJobs (loop (snd (AwaitPromise example_platform example_engine ''42''
         (NewEventLoopRunner False ())))) = [Await ''42'']"
proof -
  have h: "phase (loop (NewEventLoopRunner False () :: (string, unit) EventLoopRunner)) \<noteq> Running"
    by (simp add: NewEventLoopRunner_def)
  show ?thesis
    using h C3_await_when_not_running_blocks [OF h, of example_platform example_engine "''42''"]
    by (simp add: NewEventLoopRunner_def)
qed

text \<open>
  The claim as stated fails: before \<^verbatim>\<open>Start\<close>, and after \<^verbatim>\<open>Stop\<close>, the call blocks
  instead of failing with a usage error.
\<close>

theorem C3_no_usage_error_counterexample:
  "fst (AwaitPromise example_platform example_engine ''42''
          (NewEventLoopRunner False () :: (string, unit) EventLoopRunner)) = Blocked
   \<and> fst (AwaitPromise example_platform example_engine ''42''
          (Stop (Start example_engine (NewEventLoopRunner False ())) :: (string, unit) EventLoopRunner))
       = Blocked"
  by (simp add: AwaitPromise_def started Stop_def eventloop_Stop_def)
     (simp add: NewEventLoopRunner_def)



text \<open>
  Claim C1. \<^verbatim>\<open>AwaitPromise\<close> tells a rejection by the reason being neither
  \<^verbatim>\<open>undefined\<close> nor \<^verbatim>\<open>null\<close>. A promise rejected without a reason, or with
  \<^verbatim>\<open>null\<close>, is therefore reported as fulfilled: the call returns \<^verbatim>\<open>nil\<close> and no
  error. A promise rejected with the string \<^verbatim>\<open>boom\<close> gives the error
  \<^verbatim>\<open>promise rejected: boom\<close>.
\<close>

theorem C1_rejection_without_reason_is_lost:
  "fst (AwaitPromise example_platform example_engine ''Promise.reject()''
          (Start example_engine (NewEventLoopRunner False ()))) = Done (GoNil, None)
   \<and> fst (AwaitPromise example_platform example_engine ''Promise.reject(null)''
          (Start example_engine (NewEventLoopRunner False ()))) = Done (GoNil, None)
   \<and> fst (AwaitPromise example_platform example_engine reject_boom
          (Start example_engine (NewEventLoopRunner False ())))
       = Done (GoNil, Some (PromiseRejected ''promise rejected: boom''))"
  by (simp add: AwaitPromise_def started example_engine_def reject_boom_def
      example_awaited_def checkResult_settles settled_def on_rejected_def initial_result_def)

text \<open>
  For every reason other than \<^verbatim>\<open>undefined\<close> and \<^verbatim>\<open>null\<close> the rejection is reported,
  and the message ends with the reason as \<^verbatim>\<open>%v\<close> prints its exported value.
\<close>

lemma AwaitPromise_rejected:
  assumes "phase (loop r) = Running"
    and "fst (evaluate_awaited eng code (setupVM r (the_js r))) = Thenable (Some (n, Rejected e))"
    and "e \<noteq> JUndefined" and "e \<noteq> JNull"
  shows "fst (AwaitPromise lib eng code r)
           = Done (GoNil, Some (PromiseRejected (''promise rejected: '' @ Sprint_v lib (Value_Export e))))"
proof -
  obtain g where ev: "evaluate_awaited eng code (setupVM r (the_js r))
                        = (Thenable (Some (n, Rejected e)), g)"
    using assms(2) by (cases "evaluate_awaited eng code (setupVM r (the_js r))") simp
  show ?thesis
    using assms(1,3,4) ev
    by (simp add: AwaitPromise_def checkResult_settles settled_def on_rejected_def
        initial_result_def)
qed


text \<open>A promise that never settles keeps the caller waiting.\<close>

lemma AwaitPromise_never_settled:
  assumes "phase (loop r) = Running"
    and "fst (evaluate_awaited eng code (setupVM r (the_js r))) = Thenable None"
  shows "fst (AwaitPromise lib eng code r) = Blocked"
proof -
  obtain g where "evaluate_awaited eng code (setupVM r (the_js r)) = (Thenable None, g)"
    using assms(2) by (cases "evaluate_awaited eng code (setupVM r (the_js r))") simp
  then show ?thesis
    using assms(1) by (simp add: AwaitPromise_def checkResult_never)
qed

subsection \<open>The order of timers\<close>

lemma insort_key_map_commute:
  "insort_key g (f x) (map f ys) = map f (insort_key (\<lambda>y. g (f y)) x ys)"
  by (induction ys) simp_all

lemma sort_key_map_commute:
  "sort_key g (map f xs) = map f (sort_key (\<lambda>y. g (f y)) xs)"
  by (induction xs) (simp_all add: insort_key_map_commute)

lemma insort_key_shift:
  "insort_key (\<lambda>z. (c::nat) + f z) x ys = insort_key f x ys"
  by (induction ys) simp_all

lemma sort_key_shift:
  "sort_key (\<lambda>z. (c::nat) + f z) xs = sort_key f xs"
  by (induction xs) (simp_all add: insort_key_shift)

lemma sorted_split_filter:
  "sorted (map f ys) \<Longrightarrow>
     filter (\<lambda>t. f t \<le> (a::nat)) ys @ filter (\<lambda>t. \<not> f t \<le> a) ys = ys"
proof (induction ys)
  case Nil
  then show ?case by simp
next
  case (Cons y ys)
  show ?case
  proof (cases "f y \<le> a")
    case True
    with Cons show ?thesis by simp
  next
    case False
    with Cons.prems have "\<forall>t\<in>set ys. \<not> f t \<le> a" by auto
    then have "filter (\<lambda>t. f t \<le> a) ys = []" "filter (\<lambda>t. \<not> f t \<le> a) ys = ys"
      by (simp_all add: filter_empty_conv filter_id_conv)
    with False show ?thesis by simp
  qed
qed

lemma sort_key_filter_partition:
  assumes "(a::nat) \<le> b"
  shows "sort_key f (filter (\<lambda>t. f t \<le> a) xs)
           @ sort_key f (filter (\<lambda>t. f t \<le> b) (filter (\<lambda>t. \<not> f t \<le> a) xs))
         = sort_key f (filter (\<lambda>t. f t \<le> b) xs)"
proof -
  let ?ys = "sort_key f (filter (\<lambda>t. f t \<le> b) xs)"
  have "sorted (map f ?ys)" by simp
  then have "filter (\<lambda>t. f t \<le> a) ?ys @ filter (\<lambda>t. \<not> f t \<le> a) ?ys = ?ys"
    by (rule sorted_split_filter)
  moreover have "filter (\<lambda>t. f t \<le> a) ?ys = sort_key f (filter (\<lambda>t. f t \<le> a) xs)"
    using assms by (simp add: filter_sort) (rule arg_cong [where f = "sort_key f"], rule filter_cong, auto)
  moreover have "filter (\<lambda>t. \<not> f t \<le> a) ?ys
                   = sort_key f (filter (\<lambda>t. f t \<le> b) (filter (\<lambda>t. \<not> f t \<le> a) xs))"
    by (simp add: filter_sort) (rule arg_cong [where f = "sort_key f"], rule filter_cong, auto)
  ultimately show ?thesis by simp
qed


lemma fire_appender:
  "timers (loop (fire eng (appender_timer c z) r))
     = filter (\<lambda>u. tid u \<noteq> fst z) (timers (loop r))"
  "host (world (loop (fire eng (appender_timer c z) r))) = host (world (loop r)) @ [snd (snd z)]"
  "phase (loop (fire eng (appender_timer c z) r)) = phase (loop r)"
  "now (loop (fire eng (appender_timer c z) r)) = now (loop r)"
  by (simp_all add: fire_def run_job_def appender_timer_def Let_def)

lemma fire_all_appenders:
  "timers (loop (fire_all eng (map (appender_timer c) fs) r))
     = filter (\<lambda>u. tid u \<notin> fst ` set fs) (timers (loop r))
   \<and> host (world (loop (fire_all eng (map (appender_timer c) fs) r)))
       = host (world (loop r)) @ map (\<lambda>z. snd (snd z)) fs
   \<and> phase (loop (fire_all eng (map (appender_timer c) fs) r)) = phase (loop r)
   \<and> now (loop (fire_all eng (map (appender_timer c) fs) r)) = now (loop r)"
proof (induction fs arbitrary: r)
  case Nil
  show ?case by simp
next
  case (Cons z fs)
  have "filter (\<lambda>u. tid u \<notin> fst ` set fs) (filter (\<lambda>u. tid u \<noteq> fst z) (timers (loop r)))
          = filter (\<lambda>u. tid u \<notin> fst ` set (z # fs)) (timers (loop r))"
    by (auto intro: filter_cong)
  then show ?case
    using Cons.IH [of "fire eng (appender_timer c z) r"]
    by (simp add: fire_appender)
qed

lemma tick_appenders:
  assumes "phase (loop r) = Running"
    and "timers (loop r) = map (appender_timer c) zs"
    and "distinct (map fst zs)"
  shows "timers (loop (tick eng r))
           = map (appender_timer c) (filter (\<lambda>z. \<not> c + fst (snd z) \<le> Suc (now (loop r))) zs)"
    and "host (world (loop (tick eng r)))
           = host (world (loop r))
             @ map (\<lambda>z. snd (snd z))
                 (sort_key (\<lambda>z. c + fst (snd z))
                    (filter (\<lambda>z. c + fst (snd z) \<le> Suc (now (loop r))) zs))"
    and "phase (loop (tick eng r)) = Running"
    and "now (loop (tick eng r)) = Suc (now (loop r))"
proof -
  let ?m = "Suc (now (loop r))"
  let ?fs = "sort_key (\<lambda>z. c + fst (snd z)) (filter (\<lambda>z. c + fst (snd z) \<le> ?m) zs)"
  let ?r1 = "r\<lparr>loop := (loop r)\<lparr>now := ?m\<rparr>\<rparr>"
  have due: "due (appender_timer c z :: ('a, 'b list) timer) = c + fst (snd z)" for z
    by (simp add: appender_timer_def)
  have sel: "sort_key due (filter (\<lambda>t. due t \<le> ?m) (map (appender_timer c) zs :: ('a, 'b list) timer list))
               = map (appender_timer c) ?fs"
    by (simp add: filter_map sort_key_map_commute o_def due)
  have t: "tick eng r = fire_all eng (map (appender_timer c) ?fs) ?r1"
    using assms(1,2) sel by (simp add: tick_def Let_def)
  have inj: "inj_on fst (set zs)"
    using assms(3) by (simp add: distinct_map)
  have keep: "filter (\<lambda>z. fst z \<notin> fst ` set ?fs) zs
                = filter (\<lambda>z. \<not> c + fst (snd z) \<le> ?m) zs"
  proof (rule filter_cong [OF refl])
    fix z assume z: "z \<in> set zs"
    show "(fst z \<notin> fst ` set ?fs) = (\<not> c + fst (snd z) \<le> ?m)"
    proof
      assume "fst z \<notin> fst ` set ?fs"
      with z show "\<not> c + fst (snd z) \<le> ?m" by force
    next
      assume n: "\<not> c + fst (snd z) \<le> ?m"
      show "fst z \<notin> fst ` set ?fs"
      proof
        assume "fst z \<in> fst ` set ?fs"
        then obtain z' where z': "z' \<in> set zs" "c + fst (snd z') \<le> ?m" "fst z = fst z'"
          by auto
        with inj z have "z = z'" by (auto dest: inj_onD)
        with z' n show False by simp
      qed
    qed
  qed
  have tid: "tid (appender_timer c z :: ('a, 'b list) timer) = fst z" for z
    by (simp add: appender_timer_def)
  show "timers (loop (tick eng r))
           = map (appender_timer c) (filter (\<lambda>z. \<not> c + fst (snd z) \<le> ?m) zs)"
    using fire_all_appenders [of eng c ?fs ?r1] assms(2) keep
    by (simp add: t filter_map o_def tid)
  show "host (world (loop (tick eng r))) = host (world (loop r)) @ map (\<lambda>z. snd (snd z)) ?fs"
    using fire_all_appenders [of eng c ?fs ?r1] by (simp add: t)
  show "phase (loop (tick eng r)) = Running"
    using fire_all_appenders [of eng c ?fs ?r1] assms(1) by (simp add: t)
  show "now (loop (tick eng r)) = ?m"
    using fire_all_appenders [of eng c ?fs ?r1] by (simp add: t)
qed

lemma advance_appenders:
  assumes "phase (loop r) = Running"
    and "timers (loop r) = map (appender_timer c) zs"
    and "distinct (map fst zs)"
  shows "host (world (loop (advance eng (Suc n) r)))
           = host (world (loop r))
             @ map (\<lambda>z. snd (snd z))
                 (sort_key (\<lambda>z. c + fst (snd z))
                    (filter (\<lambda>z. c + fst (snd z) \<le> now (loop r) + Suc n) zs))"
  using assms
proof (induction n arbitrary: r zs)
  case 0
  then show ?case by (simp add: tick_appenders)
next
  case (Suc n)
  let ?m = "Suc (now (loop r))"
  let ?zs = "filter (\<lambda>z. \<not> c + fst (snd z) \<le> ?m) zs"
  have d: "distinct (map fst ?zs)"
    using Suc.prems(3) by (simp add: distinct_map_filter)
  have ih: "host (world (loop (advance eng (Suc n) (tick eng r))))
              = host (world (loop (tick eng r)))
                @ map (\<lambda>z. snd (snd z))
                    (sort_key (\<lambda>z. c + fst (snd z))
                       (filter (\<lambda>z. c + fst (snd z) \<le> ?m + Suc n) ?zs))"
    using Suc.IH [of "tick eng r" ?zs] tick_appenders [OF Suc.prems, of eng] d
    by simp
  have part: "sort_key (\<lambda>z. c + fst (snd z)) (filter (\<lambda>z. c + fst (snd z) \<le> ?m) zs)
                @ sort_key (\<lambda>z. c + fst (snd z))
                    (filter (\<lambda>z. c + fst (snd z) \<le> ?m + Suc n) ?zs)
              = sort_key (\<lambda>z. c + fst (snd z))
                  (filter (\<lambda>z. c + fst (snd z) \<le> ?m + Suc n) zs)"
    by (rule sort_key_filter_partition) simp
  have "advance eng (Suc (Suc n)) r = advance eng (Suc n) (tick eng r)"
    by simp
  then have "host (world (loop (advance eng (Suc (Suc n)) r)))
               = host (world (loop r))
                 @ map (\<lambda>z. snd (snd z))
                     (sort_key (\<lambda>z. c + fst (snd z)) (filter (\<lambda>z. c + fst (snd z) \<le> ?m) zs)
                      @ sort_key (\<lambda>z. c + fst (snd z))
                          (filter (\<lambda>z. c + fst (snd z) \<le> ?m + Suc n) ?zs))"
    using ih tick_appenders(2) [OF Suc.prems, of eng] by (simp only: map_append append_assoc)
  then show ?case
    by (simp only: part) simp
qed


lemma stamp_fst_ge: "z \<in> set (stamp k sched) \<Longrightarrow> k \<le> fst z"
  by (induction sched arbitrary: k) (auto dest: Suc_leD)

lemma distinct_stamp: "distinct (map fst (stamp k sched))"
  by (induction sched arbitrary: k) (auto dest: stamp_fst_ge)

lemma map_snd_stamp: "map snd (stamp k sched) = sched"
  by (induction sched arbitrary: k) simp_all

lemma submit_timers:
  "timers (loop (submit sched r))
     = timers (loop r) @ map (appender_timer (now (loop r))) (stamp (next_tid (loop r)) sched)
   \<and> phase (loop (submit sched r)) = phase (loop r)
   \<and> now (loop (submit sched r)) = now (loop r)
   \<and> host (world (loop (submit sched r))) = host (world (loop r))"
proof (induction sched arbitrary: r)
  case Nil
  show ?case by simp
next
  case (Cons p sched)
  obtain d x where p: "p = (d, x)" by (cases p)
  let ?r = "snd (SetTimeout (\<lambda>w. w\<lparr>host := host w @ [x]\<rparr>) d r)"
  have l: "loop ?r = (loop r)\<lparr>timers := timers (loop r) @ [appender_timer (now (loop r)) (next_tid (loop r), d, x)],
                              next_tid := Suc (next_tid (loop r))\<rparr>"
    by (simp add: SetTimeout_def eventloop_SetTimeout_def schedule_def appender_timer_def)
  show ?case
    using Cons.IH [of ?r] by (simp add: p l)
qed

lemma sorted_by_delay:
  "map (\<lambda>z. snd (snd z))
     (sort_key (\<lambda>z. c + fst (snd z)) (filter (\<lambda>z. c + fst (snd z) \<le> c + m) (stamp k sched)))
   = map snd (sort_key fst (filter (\<lambda>(d, x). d \<le> m) sched))"
proof -
  have "map snd (sort_key fst (filter (\<lambda>(d, x). d \<le> m) sched))
          = map snd (sort_key fst (filter (\<lambda>p. fst p \<le> m) (map snd (stamp k sched))))"
    by (simp add: map_snd_stamp case_prod_unfold)
  also have "\<dots> = map snd (map snd (sort_key (\<lambda>z. fst (snd z))
                                  (filter (\<lambda>z. fst (snd z) \<le> m) (stamp k sched))))"
    by (simp add: filter_map o_def sort_key_map_commute)
  finally show ?thesis
    by (simp add: sort_key_shift o_def)
qed

text \<open>
  Claim C9. On a running loop with no other timer pending, the callbacks of timeouts
  submitted at one instant run in the order of their delays, and callbacks of equal
  delay in the order of submission: after \<open>n + 1\<close> milliseconds the tags appended are
  those of the delays up to \<open>n + 1\<close>, stably sorted by delay. In particular the
  timeouts of 150, 50 and 100 milliseconds that append 3, 1 and 2 give the sequence
  1, 2, 3.
\<close>

theorem C9_timers_fire_by_delay:
  assumes "phase (loop r) = Running" and "timers (loop r) = []"
  shows "host (world (loop (advance eng (Suc n) (submit sched r))))
           = host (world (loop r)) @ map snd (sort_key fst (filter (\<lambda>(d, x). d \<le> Suc n) sched))
       \<and> host (world (loop (advance eng 150 (submit [(150, 3), (50, 1), (100, 2 :: int)] r))))
           = host (world (loop r)) @ [1, 2, 3]"
proof -
  have gen: "host (world (loop (advance eng (Suc m) (submit s r))))
               = host (world (loop r)) @ map snd (sort_key fst (filter (\<lambda>(d, x). d \<le> Suc m) s))"
    for m and s :: "(nat \<times> int) list"
  proof -
    let ?c = "now (loop r)"
    let ?zs = "stamp (next_tid (loop r)) s"
    have t: "timers (loop (submit s r)) = map (appender_timer ?c) ?zs"
      using submit_timers [of s r] assms(2) by simp
    have p: "phase (loop (submit s r)) = Running"
      using submit_timers [of s r] assms(1) by simp
    have d: "distinct (map fst ?zs)"
      by (rule distinct_stamp)
    have "host (world (loop (advance eng (Suc m) (submit s r))))
            = host (world (loop (submit s r)))
              @ map (\<lambda>z. snd (snd z))
                  (sort_key (\<lambda>z. ?c + fst (snd z))
                     (filter (\<lambda>z. ?c + fst (snd z) \<le> now (loop (submit s r)) + Suc m) ?zs))"
      by (rule advance_appenders [OF p t d])
    also have "\<dots> = host (world (loop r))
                      @ map snd (sort_key fst (filter (\<lambda>(d, x). d \<le> Suc m) s))"
      using submit_timers [of s r] sorted_by_delay [of ?c "Suc m" "next_tid (loop r)" s]
      by simp
    finally show ?thesis .
  qed
  have "(150 :: nat) = Suc 149" by simp
  then have "host (world (loop (advance eng 150 (submit [(150, 3), (50, 1), (100, 2 :: int)] r))))
               = host (world (loop r)) @ [1, 2, 3]"
    using gen [of 149 "[(150, 3), (50, 1), (100, 2)]"] by simp
  with gen [of n sched] show ?thesis by simp
qed

theorem C9_timers_fire_by_delay_witness:
  "phase (loop (Start example_engine (NewEventLoopRunner False []))) = Running
   \<and> timers (loop (Start example_engine (NewEventLoopRunner False []))) = []
   \<and> host (world (loop (advance example_engine 150
        (submit [(150, 3), (50, 1), (100, 2 :: int)]
           (Start example_engine (NewEventLoopRunner False [])))))) = [1, 2, 3]
   \<and> host (world (loop (advance example_engine (Suc 4)
        (submit [(5, 7), (5, 8), (2, 9 :: int)]
           (Start example_engine (NewEventLoopRunner False [])))))) = [9, 7, 8]"
proof -
  let ?r = "Start example_engine (NewEventLoopRunner False []) :: (string, int list) EventLoopRunner"
  have p: "phase (loop ?r) = Running" by (simp add: started)
  have t: "timers (loop ?r) = []" by (simp add: started)
  show ?thesis
    using p t C9_timers_fire_by_delay [OF p t, of example_engine 4 "[(5, 7), (5, 8), (2, 9)]"]
    by (simp add: started)
qed


subsection \<open>The bounded pump and the registry\<close>















text \<open>
  Claim C10, as amended. \<^verbatim>\<open>setupVM\<close> binds every entry of the registry, whatever the
  runtime held before, except that with web access enabled the names \<^verbatim>\<open>fetchText\<close>
  and \<^verbatim>\<open>fetchJSON\<close> are bound to the fetch helpers; so is a global set with
  \<^verbatim>\<open>SetGlobal\<close> just before. The function given to \<^verbatim>\<open>Run\<close>, \<^verbatim>\<open>RunOnLoop\<close>,
  \<^verbatim>\<open>SetTimeout\<close> or \<^verbatim>\<open>SetInterval\<close> is called on the runtime that \<^verbatim>\<open>setupVM\<close> has
  left, with the registry of the moment the closure runs; the result of \<^verbatim>\<open>RunAsync\<close>
  and \<^verbatim>\<open>RunAsyncWithTimeout\<close> is that of the source text on that runtime, and so is
  the value \<^verbatim>\<open>AwaitPromise\<close> returns.
\<close>

theorem C10_registry_bound_before_user_code:
  "(\<forall>name v. globals r name = Some v \<longrightarrow>
       setupVM r g name =
         Some (if webAccessEnabled r \<and> name = ''fetchText'' then ToValue fetchText_helper
               else if webAccessEnabled r \<and> name = ''fetchJSON'' then ToValue fetchJSON_helper
               else ToValue v))
   \<and> setupVM (EventLoopRunner_SetGlobal name v r) g name =
         Some (if webAccessEnabled r \<and> name = ''fetchText'' then ToValue fetchText_helper
               else if webAccessEnabled r \<and> name = ''fetchJSON'' then ToValue fetchJSON_helper
               else ToValue v)
   \<and> (phase (loop r) = Created \<longrightarrow> auxJobs (loop r) = [] \<longrightarrow> timers (loop r) = [] \<longrightarrow>
        (\<exists>r'. Run eng fn r = Done r'
            \<and> world (loop r') = fn ((world (loop r))\<lparr>js := setupVM r (the_js r)\<rparr>)))
   \<and> (phase (loop r) = Running \<longrightarrow>
        world (loop (RunOnLoop eng fn r)) = fn ((world (loop r))\<lparr>js := setupVM r (the_js r)\<rparr>))
   \<and> world (loop (fire eng (last (timers (loop (snd (SetTimeout fn delay s))))) r))
        = fn ((world (loop r))\<lparr>js := setupVM r (the_js r)\<rparr>)
   \<and> world (loop (fire eng (last (timers (loop (snd (SetInterval fn delay s))))) r))
        = fn ((world (loop r))\<lparr>js := setupVM r (the_js r)\<rparr>)
   \<and> (\<forall>out r'. RunAsync eng code r = Done (out, r') \<longrightarrow>
        out = result_pair (fst (RunString eng code (setupVM r (the_js r)))))
   \<and> (\<forall>out r'. Done (out, r') \<in> RunAsyncWithTimeout eng code timeout r \<longrightarrow>
        out = result_pair (fst (RunString eng code (setupVM r (the_js r))))
        \<or> out = (None, Some (TimedOut timeout)))
   \<and> (phase (loop r) = Running \<longrightarrow>
        fst (evaluate_awaited eng code (setupVM r (the_js r))) = NotThenable x \<longrightarrow>
        fst (AwaitPromise lib eng code r) = Done (Value_Export x, None))"
proof -
  have a: "\<forall>name v. globals r name = Some v \<longrightarrow>
       setupVM r g name =
         Some (if webAccessEnabled r \<and> name = ''fetchText'' then ToValue fetchText_helper
               else if webAccessEnabled r \<and> name = ''fetchJSON'' then ToValue fetchJSON_helper
               else ToValue v)"
    by (simp add: setupVM_registry)
  have b: "setupVM (EventLoopRunner_SetGlobal name v r) g name =
         Some (if webAccessEnabled r \<and> name = ''fetchText'' then ToValue fetchText_helper
               else if webAccessEnabled r \<and> name = ''fetchJSON'' then ToValue fetchJSON_helper
               else ToValue v)"
    using setupVM_registry [of "EventLoopRunner_SetGlobal name v r" name v g]
    by (simp add: EventLoopRunner_SetGlobal_def)
  have j: "world (loop (run_job eng (Wrapped fn) r'))
             = fn ((world (loop r'))\<lparr>js := setupVM r' (the_js r')\<rparr>)" for r'
    by (simp add: run_job_def)
  have c: "\<exists>r'. Run eng fn r = Done r'
            \<and> world (loop r') = fn ((world (loop r))\<lparr>js := setupVM r (the_js r)\<rparr>)"
    if "phase (loop r) = Created" and "auxJobs (loop r) = []" and "timers (loop r) = []"
  proof -
    let ?r1 = "begin_run eng (run_job eng (Wrapped fn) r)"
    have t: "timers (loop ?r1) = []"
      using that by (simp add: begin_run_def run_job_def)
    have "pump eng ?r1 = Some ?r1"
      using t by (subst pump.simps) simp
    then have "Run eng fn r = Done (end_run ?r1)"
      using that by (simp add: Run_def eventloop_Run_def)
    moreover have "world (loop (end_run ?r1)) = fn ((world (loop r))\<lparr>js := setupVM r (the_js r)\<rparr>)"
      using that by (simp add: end_run_def begin_run_def run_job_def)
    ultimately show ?thesis by blast
  qed
  have d: "world (loop (RunOnLoop eng fn r)) = fn ((world (loop r))\<lparr>js := setupVM r (the_js r)\<rparr>)"
    if "phase (loop r) = Running"
    using that by (simp add: RunOnLoop_def eventloop_RunOnLoop_def j)
  have f: "world (loop (fire eng t r)) = fn ((world (loop r))\<lparr>js := setupVM r (the_js r)\<rparr>)"
    if "task t = Wrapped fn" for t :: "('a, 'b) timer"
    using that by (simp add: fire_def Let_def run_job_def setupVM_def the_js_def)
  have e1: "task (last (timers (loop (snd (SetTimeout fn delay s))))) = Wrapped fn"
    by (simp add: SetTimeout_def eventloop_SetTimeout_def schedule_def)
  have e2: "task (last (timers (loop (snd (SetInterval fn delay s))))) = Wrapped fn"
    by (simp add: SetInterval_def eventloop_SetInterval_def schedule_def)
  have h: "out = result_pair (fst (RunString eng code (setupVM r (the_js r))))"
    if "RunAsync eng code r = Done (out, r')" for out r'
    using that
    by (auto simp: RunAsync_def run_script_def split: if_splits prod.splits option.splits)
  have i: "out = result_pair (fst (RunString eng code (setupVM r (the_js r))))
           \<or> out = (None, Some (TimedOut timeout))"
    if "Done (out, r') \<in> RunAsyncWithTimeout eng code timeout r" for out r'
    using that
    by (auto simp: RunAsyncWithTimeout_def run_script_def split: if_splits prod.splits)
  have k: "fst (AwaitPromise lib eng code r) = Done (Value_Export x, None)"
    if running: "phase (loop r) = Running"
      and plain: "fst (evaluate_awaited eng code (setupVM r (the_js r))) = NotThenable x"
  proof -
    obtain g' where "evaluate_awaited eng code (setupVM r (the_js r)) = (NotThenable x, g')"
      using plain by (cases "evaluate_awaited eng code (setupVM r (the_js r))") simp
    then show ?thesis
      using running
      by (simp add: AwaitPromise_def settled_def initial_result_def)
         (subst checkResult.simps, simp add: settled_def initial_result_def)
  qed
  show ?thesis
    using a b c d f [OF e1] f [OF e2] h i k by blast
qed

lemma Run_at_rest:
  assumes "phase (loop r) \<noteq> Running" and "auxJobs (loop r) = []" and "timers (loop r) = []"
  shows "Run eng fn r = Done (end_run (begin_run eng (run_job eng (Wrapped fn) r)))"
proof -
  have "timers (loop (begin_run eng (run_job eng (Wrapped fn) r))) = []"
    using assms by (simp add: begin_run_def run_job_def)
  then have "pump eng (begin_run eng (run_job eng (Wrapped fn) r))
               = Some (begin_run eng (run_job eng (Wrapped fn) r))"
    by (rule pump_idle)
  with assms(1) show ?thesis by (simp add: Run_def eventloop_Run_def)
qed

text \<open>
  The claim as stated fails with web access enabled: a global registered under the
  name \<^verbatim>\<open>fetchText\<close> is not what the closure sees. The closure given to \<^verbatim>\<open>Run\<close> copies
  the global into host memory, and finds the fetch helper where the registry has 1.
\<close>

theorem C10_fetch_helper_shadows_registry_counterexample:
  "globals (EventLoopRunner_SetGlobal ''fetchText'' (GoInt 1)
      (NewEventLoopRunner True None :: (string, jsval option) EventLoopRunner)) ''fetchText''
     = Some (GoInt 1)
   \<and> ToValue (GoInt 1) = JNumber (Fin 1)
   \<and> Run example_engine (\<lambda>w. w\<lparr>host := js w ''fetchText''\<rparr>)
       (EventLoopRunner_SetGlobal ''fetchText'' (GoInt 1) (NewEventLoopRunner True None))
     = Done \<lparr>loop = \<lparr>phase = Created, now = 0,
                       world = \<lparr>js = [''fetchText'' \<mapsto> JFunction 0, ''fetchJSON'' \<mapsto> JFunction 1],
                                host = Some (JFunction 0)\<rparr>,
                       auxJobs = [], timers = [], next_tid = 0\<rparr>,
              globals = [''fetchText'' \<mapsto> GoInt 1],
              webAccessEnabled = True\<rparr>"
proof -
  let ?r = "EventLoopRunner_SetGlobal ''fetchText'' (GoInt 1)
              (NewEventLoopRunner True None :: (string, jsval option) EventLoopRunner)"
  have r: "?r = \<lparr>loop = \<lparr>phase = Created, now = 0, world = \<lparr>js = Map.empty, host = None\<rparr>,
                       auxJobs = [], timers = [], next_tid = 0\<rparr>,
              globals = [''fetchText'' \<mapsto> GoInt 1],
              webAccessEnabled = True\<rparr>"
    by (simp add: EventLoopRunner_SetGlobal_def NewEventLoopRunner_def)
  have s: "setupVM ?r Map.empty = [''fetchText'' \<mapsto> JFunction 0, ''fetchJSON'' \<mapsto> JFunction 1]"
    by (rule ext)
       (simp add: r setupVM_def installFetchGlobals_def vm_Set_def fetchText_helper_def
          fetchJSON_helper_def map_add_def float64_of_int_exact)
  have "Run example_engine (\<lambda>w. w\<lparr>host := js w ''fetchText''\<rparr>) ?r
          = Done (end_run (begin_run example_engine
                    (run_job example_engine (Wrapped (\<lambda>w. w\<lparr>host := js w ''fetchText''\<rparr>)) ?r)))"
    by (rule Run_at_rest) (simp_all add: r)
  also have "\<dots> = Done \<lparr>loop = \<lparr>phase = Created, now = 0,
                       world = \<lparr>js = [''fetchText'' \<mapsto> JFunction 0, ''fetchJSON'' \<mapsto> JFunction 1],
                                host = Some (JFunction 0)\<rparr>,
                       auxJobs = [], timers = [], next_tid = 0\<rparr>,
              globals = [''fetchText'' \<mapsto> GoInt 1],
              webAccessEnabled = True\<rparr>"
    using s by (simp add: end_run_def begin_run_def run_job_def the_js_def r)
  finally show ?thesis
    by (simp add: r float64_of_int_exact)
qed

theorem C10_registry_bound_before_user_code_witness:
  "globals (EventLoopRunner_SetGlobal ''myValue'' (GoInt 123)
      (NewEventLoopRunner False None :: (string, jsval option) EventLoopRunner)) ''myValue''
     = Some (GoInt 123)
   \<and> setupVM (EventLoopRunner_SetGlobal ''myValue'' (GoInt 123)
         (NewEventLoopRunner False None :: (string, jsval option) EventLoopRunner))
        [''myValue'' \<mapsto> JString ''overwritten''] ''myValue''
     = Some (JNumber (Fin 123))
   \<and> phase (loop (EventLoopRunner_SetGlobal ''myValue'' (GoInt 123)
         (NewEventLoopRunner False None :: (string, jsval option) EventLoopRunner))) = Created
   \<and> auxJobs (loop (EventLoopRunner_SetGlobal ''myValue'' (GoInt 123)
         (NewEventLoopRunner False None :: (string, jsval option) EventLoopRunner))) = []
   \<and> timers (loop (EventLoopRunner_SetGlobal ''myValue'' (GoInt 123)
         (NewEventLoopRunner False None :: (string, jsval option) EventLoopRunner))) = []
   \<and> (\<exists>r'. Run example_engine (\<lambda>w. w\<lparr>host := js w ''myValue''\<rparr>)
               (EventLoopRunner_SetGlobal ''myValue'' (GoInt 123) (NewEventLoopRunner False None))
             = Done r'
           \<and> host (world (loop r')) = Some (JNumber (Fin 123)))
   \<and> RunAsync example_engine ''myValue''
         (EventLoopRunner_SetGlobal ''myValue'' (GoInt 123)
            (NewEventLoopRunner False None :: (string, jsval option) EventLoopRunner))
       = Done ((Some (JNumber (Fin 123)), None),
               \<lparr>loop = \<lparr>phase = Created, now = 0,
                         world = \<lparr>js = [''myValue'' \<mapsto> JNumber (Fin 123)], host = None\<rparr>,
                         auxJobs = [], timers = [], next_tid = 0\<rparr>,
                globals = [''myValue'' \<mapsto> GoInt 123],
                webAccessEnabled = False\<rparr>)"
proof -
  let ?r = "EventLoopRunner_SetGlobal ''myValue'' (GoInt 123)
              (NewEventLoopRunner False None :: (string, jsval option) EventLoopRunner)"
  let ?fn = "\<lambda>w :: jsval option world. w\<lparr>host := js w ''myValue''\<rparr>"
  have r: "?r = \<lparr>loop = \<lparr>phase = Created, now = 0, world = \<lparr>js = Map.empty, host = None\<rparr>,
                       auxJobs = [], timers = [], next_tid = 0\<rparr>,
              globals = [''myValue'' \<mapsto> GoInt 123],
              webAccessEnabled = False\<rparr>"
    by (simp add: EventLoopRunner_SetGlobal_def NewEventLoopRunner_def)
  have g: "globals ?r ''myValue'' = Some (GoInt 123)" by (simp add: r)
  have p: "phase (loop ?r) = Created" and a: "auxJobs (loop ?r) = []" and t: "timers (loop ?r) = []"
    by (simp_all add: r)
  have s: "setupVM ?r Map.empty = [''myValue'' \<mapsto> JNumber (Fin 123)]"
    by (rule ext) (simp add: r setupVM_def map_add_def float64_of_int_exact)
  have ra: "RunAsync example_engine ''myValue'' ?r
       = Done ((Some (JNumber (Fin 123)), None),
               \<lparr>loop = \<lparr>phase = Created, now = 0,
                         world = \<lparr>js = [''myValue'' \<mapsto> JNumber (Fin 123)], host = None\<rparr>,
                         auxJobs = [], timers = [], next_tid = 0\<rparr>,
                globals = [''myValue'' \<mapsto> GoInt 123],
                webAccessEnabled = False\<rparr>)"
    using s
    by (simp add: RunAsync_def run_script_def RunString_def example_engine_def example_compile_def
        example_run_def the_js_def set_js_def begin_run_def end_run_def pump_idle result_pair_def r)
  note main = C10_registry_bound_before_user_code
      [where r = ?r and g = "[''myValue'' \<mapsto> JString ''overwritten'']" and eng = example_engine
         and fn = ?fn and code = "''myValue''"]
  from main g have b: "setupVM ?r [''myValue'' \<mapsto> JString ''overwritten''] ''myValue''
                         = Some (JNumber (Fin 123))"
    by (simp add: r float64_of_int_exact)
  from main p a t have
    "\<exists>r'. Run example_engine ?fn ?r = Done r'
         \<and> world (loop r') = ?fn ((world (loop ?r))\<lparr>js := setupVM ?r (the_js ?r)\<rparr>)"
    by blast
  then have c: "\<exists>r'. Run example_engine ?fn ?r = Done r'
                  \<and> host (world (loop r')) = Some (JNumber (Fin 123))"
    using s by (auto simp: the_js_def r)
  show ?thesis
    using g b p a t c ra by blast
qed

end
